theory Spec2Isabelle
  imports Main
begin

section \<open>RepoTree: a merged view of a working tree and a managed (DVC) tree\<close>

text \<open>
  A shallow embedding of \<^verbatim>\<open>src/dvc/tree/repo.py\<close> (class \<^verbatim>\<open>RepoTree\<close>).

  Conventions of the embedding.
  \<^item> A path is the list of its components (an absolute, normalised path), so
    \<^verbatim>\<open>os.path.join(root, name)\<close> is \<open>root @ [name]\<close>, \<^verbatim>\<open>os.path.abspath\<close> is the
    identity and \<^verbatim>\<open>PathInfo(path).parents\<close> lists the proper prefixes, nearest first.
  \<^item> A Python name with a leading underscore \<^verbatim>\<open>_f\<close> is written \<open>u_f\<close>.
  \<^item> An exception is a value of type \<open>error\<close>; a method that may raise returns
    \<open>error + 'a\<close>, with \<open>Inl\<close> for the raised exception.
  \<^item> The instance (\<^verbatim>\<open>self\<close>) is a record that every method takes and, when it
    may mutate it, returns.
  \<^item> Names imported from modules outside this file (\<^verbatim>\<open>Repo.DVC_DIR\<close>,
    \<^verbatim>\<open>DvcIgnore.DVCIGNORE_FILE\<close>, \<^verbatim>\<open>is_valid_filename\<close>, \<^verbatim>\<open>is_exec\<close>, the
    constructors \<^verbatim>\<open>DvcTree\<close> and \<^verbatim>\<open>Metadata\<close>) are fields of the record
    \<open>externals\<close>, a parameter of every function.
\<close>

subsection \<open>Data\<close>

type_synonym path = "string list"

datatype error =
    FileNotFoundError
  | NotADirectoryError
  | PermissionError
  | ValueError
  | AssertionError
  | AttributeError
  | TypeError
  | RuntimeError

text \<open>\<^verbatim>\<open>FileNotFoundError\<close>, \<^verbatim>\<open>NotADirectoryError\<close> and \<^verbatim>\<open>PermissionError\<close> are
  subclasses of \<^verbatim>\<open>OSError\<close>; the other exceptions are not.\<close>

fun is_OSError :: "error \<Rightarrow> bool" where
  "is_OSError FileNotFoundError = True"
| "is_OSError NotADirectoryError = True"
| "is_OSError PermissionError = True"
| "is_OSError _ = False"

text \<open>
  Modelled from the spec: the lazy sequence of \<open>(dir, subdirs, files)\<close> that the \<^verbatim>\<open>walk\<close>
  of a working or managed tree returns (the tree classes are not in this file). It is a
  generator in the style of \<^verbatim>\<open>os.walk(top, topdown=True)\<close>: it is exhausted, or its next
  item is \<open>(root, dirs, files)\<close> and it goes on from the list \<open>dirs\<close> as the consumer has
  left it (the consumer may rewrite the list in place before it pulls the next item).
\<close>

type_synonym entry = "path \<times> string list \<times> string list"

datatype walker =
    Exhausted
  | Yield path "string list" "string list" "string list \<Rightarrow> walker"

type_synonym info = "(string \<times> int) list"

text \<open>The part of the \<^verbatim>\<open>BaseTree\<close> interface of a working tree that \<^verbatim>\<open>RepoTree\<close> calls.
  \<open>wt_isdir\<close> is \<^verbatim>\<open>isdir(path, use_dvcignore=False)\<close>; the argument of \<open>wt_walk\<close> after
  the path is \<^verbatim>\<open>ignore_subrepos\<close>; \<open>wt_stat\<close> returns \<^verbatim>\<open>st_mode\<close>.\<close>

record working_tree =
  wt_exists :: "path \<Rightarrow> bool"
  wt_stat :: "path \<Rightarrow> error + int"
  wt_isdir :: "path \<Rightarrow> bool"
  wt_isexec :: "path \<Rightarrow> bool"
  wt_walk :: "path \<Rightarrow> bool \<Rightarrow> walker"
  wt_info :: "path \<Rightarrow> error + info"

record repo =
  root_dir :: path
  tree :: working_tree
  has_dvc_dir :: bool

text \<open>Modelled from the spec: an output of the managed tree (of it, only \<^verbatim>\<open>path_info\<close>
  is read here) and the \<^verbatim>\<open>Metadata\<close> record of module \<^verbatim>\<open>_metadata\<close>, with the fields
  the spec names.\<close>

record dvc_output =
  out_path_info :: path

record meta =
  md_path_info :: path
  md_repo :: repo
  md_outs :: "dvc_output list"
  md_isdir :: bool
  md_isfile :: bool
  md_is_exec :: bool

text \<open>The part of the \<^verbatim>\<open>DvcTree\<close> interface that \<^verbatim>\<open>RepoTree\<close> calls.\<close>

record dvc_tree =
  dt_metadata :: "path \<Rightarrow> error + meta"
  dt_exists :: "path \<Rightarrow> bool"
  dt_isdvc :: "path \<Rightarrow> bool"
  dt_isexec :: "path \<Rightarrow> bool"
  dt_walk :: "path \<Rightarrow> walker"
  dt_info :: "path \<Rightarrow> error + info"

record externals =
  DVC_DIR :: string
  DVCIGNORE_FILE :: string
  is_valid_filename :: "string \<Rightarrow> bool"
  is_exec :: "int \<Rightarrow> bool"
  DvcTree :: "repo \<Rightarrow> dvc_tree"
  Metadata :: "path \<Rightarrow> repo \<Rightarrow> meta"

text \<open>The instance. \<open>factory_calls\<close> is a log of the directories the repo factory was
  called with, in order; the source has no such field, it records the calls of
  \<^verbatim>\<open>self.repo_factory\<close>.\<close>

record repotree =
  main_repo :: repo
  traverse_subrepos :: bool
  repo_factory :: "path \<Rightarrow> error + repo"
  subrepos_trie :: "path \<rightharpoonup> repo"
  dvctrees :: "path \<rightharpoonup> dvc_tree"
  factory_calls :: "path list"

subsection \<open>\<^verbatim>\<open>stat\<close> mode bits\<close>

definition S_ISDIR :: "int \<Rightarrow> bool" where
  "S_ISDIR mode = ((mode div 4096) mod 16 = 4)"

definition S_ISREG :: "int \<Rightarrow> bool" where
  "S_ISREG mode = ((mode div 4096) mod 16 = 8)"

subsection \<open>The subrepo trie and path-to-repo resolution\<close>

text \<open>\<^verbatim>\<open>RepoTree.__init__\<close>.\<close>

definition init :: "externals \<Rightarrow> repo \<Rightarrow> bool \<Rightarrow> (path \<Rightarrow> error + repo) \<Rightarrow> repotree" where
  "init X r subrepos factory =
     \<lparr> main_repo = r,
       traverse_subrepos = subrepos,
       repo_factory = factory,
       subrepos_trie = [root_dir r \<mapsto> r],
       dvctrees = (if has_dvc_dir r then [root_dir r \<mapsto> DvcTree X r] else Map.empty),
       factory_calls = [] \<rparr>"

text \<open>\<^verbatim>\<open>PathInfo(path).parents\<close>: the proper prefixes of a path, nearest first.\<close>

fun parents :: "path \<Rightarrow> path list" where
  "parents p = (if p = [] then [] else butlast p # parents (butlast p))"

declare parents.simps [simp del]

text \<open>Modelled from the spec: \<^verbatim>\<open>PathStringTrie.longest_prefix\<close> (module
  \<^verbatim>\<open>dvc.utils.collections\<close>): the longest key of the trie that is a prefix of the path,
  with its value; \<open>None\<close> when no key is a prefix.\<close>

definition longest_prefix :: "(path \<rightharpoonup> repo) \<Rightarrow> path \<Rightarrow> (path \<times> repo) option" where
  "longest_prefix t p =
     (case find (\<lambda>q. \<not> Option.is_none (t q)) (p # parents p) of
        None \<Rightarrow> None
      | Some q \<Rightarrow> (case t q of None \<Rightarrow> None | Some r \<Rightarrow> Some (q, r)))"

definition u_is_dvc_repo :: "externals \<Rightarrow> repotree \<Rightarrow> path \<Rightarrow> bool" where
  "u_is_dvc_repo X st dir_path =
     (if \<not> traverse_subrepos st then False
      else wt_isdir (tree (main_repo st)) (dir_path @ [DVC_DIR X]))"

text \<open>\<^verbatim>\<open>_update\<close>: the loop over \<open>dirs\<close>. A failure of the factory leaves the loop with the
  entries written so far.\<close>

fun u_update :: "externals \<Rightarrow> repotree \<Rightarrow> path list \<Rightarrow> repo \<Rightarrow> (error + unit) \<times> repotree" where
  "u_update X st [] r = (Inr (), st)"
| "u_update X st (d # dirs) r =
     (if u_is_dvc_repo X st d then
        (case repo_factory st d of
           Inl e \<Rightarrow> (Inl e, st\<lparr>factory_calls := factory_calls st @ [d]\<rparr>)
         | Inr r' \<Rightarrow>
             u_update X
               (st\<lparr>factory_calls := factory_calls st @ [d],
                   dvctrees := (dvctrees st)(root_dir r' \<mapsto> DvcTree X r'),
                   subrepos_trie := (subrepos_trie st)(d \<mapsto> r')\<rparr>)
               dirs r')
      else u_update X (st\<lparr>subrepos_trie := (subrepos_trie st)(d \<mapsto> r)\<rparr>) dirs r)"

definition u_get_repo :: "externals \<Rightarrow> repotree \<Rightarrow> path \<Rightarrow> (error + repo option) \<times> repotree" where
  "u_get_repo X st p =
     (case subrepos_trie st p of
        Some r \<Rightarrow> (Inr (Some r), st)
      | None \<Rightarrow>
         (case longest_prefix (subrepos_trie st) p of
            None \<Rightarrow> (Inr None, st)
          | Some (prefix, r) \<Rightarrow>
              (let dirs = rev (p # takeWhile (\<lambda>q. q \<noteq> prefix) (parents p)) in
               case u_update X st dirs r of
                 (Inl e, st') \<Rightarrow> (Inl e, st')
               | (Inr _, st') \<Rightarrow> (Inr (subrepos_trie st' p), st'))))"

definition u_get_tree_pair ::
  "externals \<Rightarrow> repotree \<Rightarrow> path \<Rightarrow> (error + working_tree \<times> dvc_tree option) \<times> repotree" where
  "u_get_tree_pair X st p =
     (case u_get_repo X st p of
        (Inl e, st') \<Rightarrow> (Inl e, st')
      | (Inr ro, st') \<Rightarrow>
          (let r = (case ro of Some r \<Rightarrow> r | None \<Rightarrow> main_repo st')
           in (Inr (tree r, dvctrees st' (root_dir r)), st')))"

subsection \<open>Existence and metadata\<close>

text \<open>\<^verbatim>\<open>(out,) = meta.outs\<close> raises \<^verbatim>\<open>ValueError\<close> unless the list has exactly one
  element, so the \<^verbatim>\<open>assert len(meta.outs) == 1\<close> after it never fails.\<close>

definition exists :: "externals \<Rightarrow> repotree \<Rightarrow> path \<Rightarrow> (error + bool) \<times> repotree" where
  "exists X st p =
     (case u_get_tree_pair X st p of
        (Inl e, st') \<Rightarrow> (Inl e, st')
      | (Inr (t, dvc), st') \<Rightarrow>
          (case dvc of
             None \<Rightarrow> (Inr (wt_exists t p), st')
           | Some dt \<Rightarrow>
               if wt_exists t p then (Inr True, st')
               else
                 (case dt_metadata dt p of
                    Inl e \<Rightarrow> (if e = FileNotFoundError then Inr False else Inl e, st')
                  | Inr m \<Rightarrow>
                      (case md_outs m of
                         [out] \<Rightarrow>
                           (if wt_exists t (out_path_info out) then (Inr False, st')
                            else (Inr True, st'))
                       | _ \<Rightarrow> (Inl ValueError, st')))))"

definition isdir :: "externals \<Rightarrow> repotree \<Rightarrow> path \<Rightarrow> (error + bool) \<times> repotree" where
  "isdir X st p =
     (case u_get_tree_pair X st p of
        (Inl e, st') \<Rightarrow> (Inl e, st')
      | (Inr (t, dvc), st') \<Rightarrow>
          (case wt_stat t p of
             Inr mode \<Rightarrow> (Inr (S_ISDIR mode), st')
           | Inl e \<Rightarrow>
               if \<not> (is_OSError e \<or> e = ValueError) then (Inl e, st')
               else
                 (case dvc of
                    None \<Rightarrow> (Inr False, st')
                  | Some dt \<Rightarrow>
                      (case dt_metadata dt p of
                         Inl e \<Rightarrow> (if e = FileNotFoundError then Inr False else Inl e, st')
                       | Inr m \<Rightarrow>
                           (case md_outs m of
                              [out] \<Rightarrow>
                                (if wt_exists t (out_path_info out) then (Inr False, st')
                                 else (Inr (md_isdir m), st'))
                            | _ \<Rightarrow> (Inl ValueError, st'))))))"

definition isdvc :: "externals \<Rightarrow> repotree \<Rightarrow> path \<Rightarrow> (error + bool) \<times> repotree" where
  "isdvc X st p =
     (case u_get_tree_pair X st p of
        (Inl e, st') \<Rightarrow> (Inl e, st')
      | (Inr (t, dvc), st') \<Rightarrow>
          (case dvc of None \<Rightarrow> (Inr False, st') | Some dt \<Rightarrow> (Inr (dt_isdvc dt p), st')))"

definition isfile :: "externals \<Rightarrow> repotree \<Rightarrow> path \<Rightarrow> (error + bool) \<times> repotree" where
  "isfile X st p =
     (case u_get_tree_pair X st p of
        (Inl e, st') \<Rightarrow> (Inl e, st')
      | (Inr (t, dvc), st') \<Rightarrow>
          (case wt_stat t p of
             Inr mode \<Rightarrow> (Inr (S_ISREG mode), st')
           | Inl e \<Rightarrow>
               if \<not> (is_OSError e \<or> e = ValueError) then (Inl e, st')
               else
                 (case dvc of
                    None \<Rightarrow> (Inr False, st')
                  | Some dt \<Rightarrow>
                      (case dt_metadata dt p of
                         Inl e \<Rightarrow> (if e = FileNotFoundError then Inr False else Inl e, st')
                       | Inr m \<Rightarrow>
                           (case md_outs m of
                              [out] \<Rightarrow>
                                (if wt_exists t (out_path_info out) then (Inr False, st')
                                 else (Inr (md_isfile m), st'))
                            | _ \<Rightarrow> (Inl ValueError, st'))))))"

definition isexec :: "externals \<Rightarrow> repotree \<Rightarrow> path \<Rightarrow> (error + bool) \<times> repotree" where
  "isexec X st p =
     (case u_get_tree_pair X st p of
        (Inl e, st') \<Rightarrow> (Inl e, st')
      | (Inr (t, dvc), st') \<Rightarrow>
          (case dvc of
             None \<Rightarrow> (Inr (wt_isexec t p), st')
           | Some dt \<Rightarrow>
               if dt_exists dt p then (Inr (dt_isexec dt p), st')
               else (Inr (wt_isexec t p), st')))"

definition stat :: "externals \<Rightarrow> repotree \<Rightarrow> path \<Rightarrow> (error + int) \<times> repotree" where
  "stat X st p =
     (case u_get_tree_pair X st p of
        (Inl e, st') \<Rightarrow> (Inl e, st')
      | (Inr (t, dvc), st') \<Rightarrow> (wt_stat t p, st'))"

text \<open>\<^verbatim>\<open>metadata\<close>: \<^verbatim>\<open>suppress(FileNotFoundError)\<close> lets every other exception of the two
  lookups through. \<open>dvc_meta\<close> and \<open>stat_result\<close> are \<open>None\<close> as in the source.\<close>

definition metadata :: "externals \<Rightarrow> repotree \<Rightarrow> path \<Rightarrow> (error + meta) \<times> repotree" where
  "metadata X st p =
     (case u_get_tree_pair X st p of
        (Inl e, st1) \<Rightarrow> (Inl e, st1)
      | (Inr (t, dvc), st1) \<Rightarrow>
          (case (case dvc of
                   None \<Rightarrow> Inr None
                 | Some dt \<Rightarrow>
                     (case dt_metadata dt p of
                        Inr m \<Rightarrow> Inr (Some m)
                      | Inl e \<Rightarrow> if e = FileNotFoundError then Inr None else Inl e)) of
             Inl e \<Rightarrow> (Inl e, st1)
           | Inr dvc_meta \<Rightarrow>
               (case (case wt_stat t p of
                        Inr mode \<Rightarrow> Inr (Some mode)
                      | Inl e \<Rightarrow> if e = FileNotFoundError then Inr None else Inl e) of
                  Inl e \<Rightarrow> (Inl e, st1)
                | Inr stat_result \<Rightarrow>
                    if Option.is_none stat_result \<and> Option.is_none dvc_meta then
                      (Inl FileNotFoundError, st1)
                    else
                      (let isdir = (case stat_result of None \<Rightarrow> False | Some mode \<Rightarrow> S_ISDIR mode)
                       in case dvc_meta of
                            Some m \<Rightarrow> (Inr (m\<lparr>md_isdir := md_isdir m \<or> isdir\<rparr>), st1)
                          | None \<Rightarrow>
                              (case u_get_repo X st1 p of
                                 (Inl e, st2) \<Rightarrow> (Inl e, st2)
                               | (Inr ro, st2) \<Rightarrow>
                                   (let r = (case ro of Some r \<Rightarrow> r | None \<Rightarrow> main_repo st2);
                                        m = Metadata X p r;
                                        m' = m\<lparr>md_isdir := md_isdir m \<or> isdir\<rparr>
                                    in (Inr (m'\<lparr>md_is_exec :=
                                                (case stat_result of
                                                   None \<Rightarrow> False
                                                 | Some mode \<Rightarrow> is_exec X mode)\<rparr>), st2)))))))"

text \<open>\<^verbatim>\<open>info\<close>: the handler calls \<^verbatim>\<open>dvc_tree.info\<close> without a test of \<^verbatim>\<open>dvc_tree\<close>; on
  \<^verbatim>\<open>None\<close> the attribute access raises \<^verbatim>\<open>AttributeError\<close>.\<close>

definition info :: "externals \<Rightarrow> repotree \<Rightarrow> path \<Rightarrow> (error + info) \<times> repotree" where
  "info X st p =
     (case u_get_tree_pair X st p of
        (Inl e, st') \<Rightarrow> (Inl e, st')
      | (Inr (t, dvc), st') \<Rightarrow>
          (case wt_info t p of
             Inr i \<Rightarrow> (Inr i, st')
           | Inl e \<Rightarrow>
               if e \<noteq> FileNotFoundError then (Inl e, st')
               else
                 (case dvc of
                    None \<Rightarrow> (Inl AttributeError, st')
                  | Some dt \<Rightarrow> (dt_info dt p, st'))))"

subsection \<open>The merged walk\<close>

text \<open>
  The walk methods are generators. A run of a generator is modelled by the list of the
  items it yields when it is consumed to its end by a consumer that leaves the yielded
  lists as they are, together with the exception that ended it, if any. The two
  underlying generators are shared by the recursive calls, so every function returns
  them as it left them. The recursion follows two generators of unknown length, and a
  subrepo starts new ones, so the functions take fuel: \<open>None\<close> means that the fuel ran
  out, and each nested call uses one unit.

  Python leaves the order of \<^verbatim>\<open>list(a_set)\<close> open; the model lists a set in the order of
  the list it was built from, without duplicates.
\<close>

text \<open>\<^verbatim>\<open>yield from walk\<close> for a consumer that does not touch the lists.\<close>

primrec drain :: "walker \<Rightarrow> entry list" where
  "drain Exhausted = []"
| "drain (Yield root dirs files k) = (root, dirs, files) # drain (k dirs)"

fun u_dvc_walk :: "nat \<Rightarrow> walker \<Rightarrow> (entry list \<times> walker) option"
and dvc_walk_loop :: "nat \<Rightarrow> string list \<Rightarrow> walker \<Rightarrow> (entry list \<times> walker) option" where
  "u_dvc_walk 0 w = None"
| "u_dvc_walk (Suc n) Exhausted = Some ([], Exhausted)"
| "u_dvc_walk (Suc n) (Yield root dirs files k) =
     (case dvc_walk_loop n dirs (k dirs) of
        None \<Rightarrow> None
      | Some (out, w') \<Rightarrow> Some ((root, dirs, files) # out, w'))"
| "dvc_walk_loop n [] w = Some ([], w)"
| "dvc_walk_loop n (d # ds) w =
     (case u_dvc_walk n w of
        None \<Rightarrow> None
      | Some (out1, w1) \<Rightarrow>
         (case dvc_walk_loop n ds w1 of
            None \<Rightarrow> None
          | Some (out2, w2) \<Rightarrow> Some (out1 @ out2, w2)))"

text \<open>The partition of the child directories of one level, and the merged file list.\<close>

definition walk_shared :: "string list \<Rightarrow> string list \<Rightarrow> string list" where
  "walk_shared dvc_dirs repo_dirs = [d \<leftarrow> remdups dvc_dirs. d \<in> set repo_dirs]"

definition walk_dvc_only :: "string list \<Rightarrow> string list \<Rightarrow> string list" where
  "walk_dvc_only dvc_dirs repo_dirs = [d \<leftarrow> remdups dvc_dirs. d \<notin> set repo_dirs]"

definition walk_repo_only :: "string list \<Rightarrow> string list \<Rightarrow> string list" where
  "walk_repo_only dvc_dirs repo_dirs = [d \<leftarrow> remdups repo_dirs. d \<notin> set dvc_dirs]"

definition walk_dirs :: "string list \<Rightarrow> string list \<Rightarrow> string list" where
  "walk_dirs dvc_dirs repo_dirs =
     walk_shared dvc_dirs repo_dirs @ walk_dvc_only dvc_dirs repo_dirs
       @ walk_repo_only dvc_dirs repo_dirs"

definition u_func :: "externals \<Rightarrow> bool \<Rightarrow> string \<Rightarrow> bool" where
  "u_func X dvcfiles fname =
     (if dvcfiles then True
      else \<not> (is_valid_filename X fname \<or> fname = DVCIGNORE_FILE X))"

definition merged_files :: "externals \<Rightarrow> bool \<Rightarrow> string list \<Rightarrow> string list \<Rightarrow> string list" where
  "merged_files X dvcfiles dvc_fnames repo_fnames =
     remdups (filter (u_func X dvcfiles) (dvc_fnames @ repo_fnames))"

definition walk_subrepos :: "externals \<Rightarrow> repotree \<Rightarrow> path \<Rightarrow> string list \<Rightarrow> string list" where
  "walk_subrepos X st repo_root repo_only =
     filter (\<lambda>d. u_is_dvc_repo X st (repo_root @ [d])) repo_only"

text \<open>The lists written back into the two generators
  (\<^verbatim>\<open>dvc_dirs[:] = ...\<close> and \<^verbatim>\<open>repo_dirs[:] = ...\<close>).\<close>

definition next_dvc_dirs :: "string list \<Rightarrow> string list \<Rightarrow> string list" where
  "next_dvc_dirs dvc_dirs repo_dirs =
     [dirname \<leftarrow> walk_dirs dvc_dirs repo_dirs. dirname \<in> set dvc_dirs]"

definition next_repo_dirs :: "string list \<Rightarrow> string list \<Rightarrow> string list \<Rightarrow> string list" where
  "next_repo_dirs subrepos dvc_dirs repo_dirs =
     [d \<leftarrow> walk_dirs dvc_dirs repo_dirs. d \<in> set repo_dirs - set subrepos]"

text \<open>The branch that the \<^verbatim>\<open>if\<close>/\<^verbatim>\<open>elif\<close> chain of the final loop of \<^verbatim>\<open>_walk\<close> takes for
  one directory name; \<open>WalkNone\<close> is the case where no test holds.\<close>

datatype action =
    WalkSubrepo path
  | WalkShared
  | WalkDvcOnly
  | WalkRepoOnly
  | WalkNone

definition dispatch ::
  "string list \<Rightarrow> string list \<Rightarrow> string list \<Rightarrow> string list \<Rightarrow> path \<Rightarrow> string \<Rightarrow> action" where
  "dispatch subrepos shared dvc_dirs repo_dirs repo_root dirname =
     (if dirname \<in> set subrepos then WalkSubrepo (repo_root @ [dirname])
      else if dirname \<in> set shared then WalkShared
      else if dirname \<in> set dvc_dirs then WalkDvcOnly
      else if dirname \<in> set repo_dirs then WalkRepoOnly
      else WalkNone)"

definition level_actions :: "externals \<Rightarrow> repotree \<Rightarrow> path \<Rightarrow> string list \<Rightarrow> string list \<Rightarrow> action list" where
  "level_actions X st repo_root dvc_dirs repo_dirs =
     map (dispatch (walk_subrepos X st repo_root (walk_repo_only dvc_dirs repo_dirs))
            (walk_shared dvc_dirs repo_dirs) dvc_dirs repo_dirs repo_root)
         (walk_dirs dvc_dirs repo_dirs)"

type_synonym walk_result = "entry list \<times> error option \<times> repotree \<times> walker \<times> walker option"

text \<open>
  \<open>u_walk\<close> is \<^verbatim>\<open>_walk\<close>, \<open>walk_loop\<close> is its final \<^verbatim>\<open>for dirname in dirs\<close> loop over the
  branches chosen by \<open>dispatch\<close>, and \<open>u_subrepo_walk\<close> is \<^verbatim>\<open>_subrepo_walk\<close>. The result
  holds the items yielded, the exception raised (if any), the instance, and the working
  and the managed generator as the call left them.
\<close>

function u_walk :: "nat \<Rightarrow> externals \<Rightarrow> repotree \<Rightarrow> bool \<Rightarrow> walker \<Rightarrow> walker option \<Rightarrow> walk_result option"
and walk_loop ::
  "nat \<Rightarrow> externals \<Rightarrow> repotree \<Rightarrow> bool \<Rightarrow> action list \<Rightarrow> walker \<Rightarrow> walker option \<Rightarrow> walk_result option"
and u_subrepo_walk ::
  "nat \<Rightarrow> externals \<Rightarrow> repotree \<Rightarrow> bool \<Rightarrow> path \<Rightarrow> (entry list \<times> error option \<times> repotree) option"
where
  "u_walk 0 X st dvcfiles repo_walk dvc_walk = None"
| "u_walk (Suc n) X st dvcfiles repo_walk dvc_walk =
     (case (case dvc_walk of
              None \<Rightarrow> Some ([], [], None)
            | Some Exhausted \<Rightarrow> None
            | Some (Yield _ dvc_dirs dvc_fnames dk) \<Rightarrow> Some (dvc_dirs, dvc_fnames, Some dk)) of
        None \<Rightarrow> Some ([], None, st, repo_walk, dvc_walk)
      | Some (dvc_dirs, dvc_fnames, dko) \<Rightarrow>
         (case repo_walk of
            Exhausted \<Rightarrow>
              Some ([], None, st, Exhausted,
                    (case dko of None \<Rightarrow> None | Some dk \<Rightarrow> Some (dk dvc_dirs)))
          | Yield repo_root repo_dirs repo_fnames rk \<Rightarrow>
              (let dirs = walk_dirs dvc_dirs repo_dirs;
                   files = merged_files X dvcfiles dvc_fnames repo_fnames;
                   subrepos = walk_subrepos X st repo_root (walk_repo_only dvc_dirs repo_dirs);
                   dvc_walk' = (case dko of
                                  None \<Rightarrow> None
                                | Some dk \<Rightarrow> Some (dk (next_dvc_dirs dvc_dirs repo_dirs)));
                   repo_walk' = rk (next_repo_dirs subrepos dvc_dirs repo_dirs)
               in case walk_loop n X st dvcfiles
                         (level_actions X st repo_root dvc_dirs repo_dirs)
                         repo_walk' dvc_walk' of
                    None \<Rightarrow> None
                  | Some (out, err, st', rw, dw) \<Rightarrow>
                      Some ((repo_root, dirs, files) # out, err, st', rw, dw))))"
| "walk_loop n X st dvcfiles [] repo_walk dvc_walk = Some ([], None, st, repo_walk, dvc_walk)"
| "walk_loop n X st dvcfiles (a # as) repo_walk dvc_walk =
     (case (case a of
              WalkSubrepo dir_path \<Rightarrow>
                (case u_subrepo_walk n X st dvcfiles dir_path of
                   None \<Rightarrow> None
                 | Some (out, err, st') \<Rightarrow> Some (out, err, st', repo_walk, dvc_walk))
            | WalkShared \<Rightarrow> u_walk n X st dvcfiles repo_walk dvc_walk
            | WalkDvcOnly \<Rightarrow>
                (case dvc_walk of
                   None \<Rightarrow> Some ([], Some TypeError, st, repo_walk, dvc_walk)
                 | Some w \<Rightarrow>
                    (case u_dvc_walk n w of
                       None \<Rightarrow> None
                     | Some (out, w') \<Rightarrow> Some (out, None, st, repo_walk, Some w')))
            | WalkRepoOnly \<Rightarrow>
                (case u_walk n X st dvcfiles repo_walk None of
                   None \<Rightarrow> None
                 | Some (out, err, st', rw, _) \<Rightarrow> Some (out, err, st', rw, dvc_walk))
            | WalkNone \<Rightarrow> Some ([], None, st, repo_walk, dvc_walk)) of
        None \<Rightarrow> None
      | Some (out1, Some e, st1, rw1, dw1) \<Rightarrow> Some (out1, Some e, st1, rw1, dw1)
      | Some (out1, None, st1, rw1, dw1) \<Rightarrow>
         (case walk_loop n X st1 dvcfiles as rw1 dw1 of
            None \<Rightarrow> None
          | Some (out2, err, st2, rw2, dw2) \<Rightarrow> Some (out1 @ out2, err, st2, rw2, dw2)))"
| "u_subrepo_walk n X st dvcfiles dir_path =
     (case u_get_tree_pair X st dir_path of
        (Inl e, st') \<Rightarrow> Some ([], Some e, st')
      | (Inr (t, dvc), st') \<Rightarrow>
          (let tree_walk = wt_walk t dir_path (\<not> traverse_subrepos st');
               dvc_walk = (case dvc of None \<Rightarrow> None | Some dt \<Rightarrow> Some (dt_walk dt dir_path))
           in case u_walk n X st' dvcfiles tree_walk dvc_walk of
                None \<Rightarrow> None
              | Some (out, err, st'', _, _) \<Rightarrow> Some (out, err, st'')))"
  by pat_completeness auto
termination
  by (relation "inv_image (less_than <*lex*> less_than) (\<lambda>x. case x of
         Inl (n, _) \<Rightarrow> (2 * n, 0)
       | Inr (Inl (n, X, st, b, as, _)) \<Rightarrow> (2 * n + 1, length as)
       | Inr (Inr (n, _)) \<Rightarrow> (2 * n + 1, 0))") auto

text \<open>
  \<^verbatim>\<open>walk\<close>. \<open>onerror\<close> tells whether a callback was passed; the third component of the
  result lists the exceptions \<^verbatim>\<open>walk\<close> itself passed to it, in order. (The callback is
  also handed on to the working tree's own \<^verbatim>\<open>walk\<close>; what that does with it belongs to
  the working tree.)
\<close>

definition walk ::
  "nat \<Rightarrow> externals \<Rightarrow> repotree \<Rightarrow> path \<Rightarrow> bool \<Rightarrow> bool \<Rightarrow> bool \<Rightarrow> bool option
     \<Rightarrow> (entry list \<times> error option \<times> error list \<times> repotree) option" where
  "walk fuel X st top_dir topdown onerror dvcfiles follow_subrepos =
     (if \<not> topdown then Some ([], Some AssertionError, [], st)
      else
        case exists X st top_dir of
          (Inl e, st1) \<Rightarrow> Some ([], Some e, [], st1)
        | (Inr False, st1) \<Rightarrow>
            Some ([], None, (if onerror then [FileNotFoundError] else []), st1)
        | (Inr True, st1) \<Rightarrow>
           (case isdir X st1 top_dir of
              (Inl e, st2) \<Rightarrow> Some ([], Some e, [], st2)
            | (Inr False, st2) \<Rightarrow>
                Some ([], None, (if onerror then [NotADirectoryError] else []), st2)
            | (Inr True, st2) \<Rightarrow>
               (let ignore_subrepos =
                      (case follow_subrepos of
                         None \<Rightarrow> \<not> traverse_subrepos st2
                       | Some f \<Rightarrow> \<not> f)
                in case u_get_tree_pair X st2 top_dir of
                     (Inl e, st3) \<Rightarrow> Some ([], Some e, [], st3)
                   | (Inr (t, dvc), st3) \<Rightarrow>
                      (let repo_exists = wt_exists t top_dir;
                           repo_walk = wt_walk t top_dir ignore_subrepos
                       in case dvc of
                            None \<Rightarrow>
                              (case u_walk fuel X st3 dvcfiles repo_walk None of
                                 None \<Rightarrow> None
                               | Some (out, err, st4, _, _) \<Rightarrow> Some (out, err, [], st4))
                          | Some dt \<Rightarrow>
                              if repo_exists \<and> dt_isdvc dt top_dir then
                                (case u_walk fuel X st3 dvcfiles repo_walk None of
                                   None \<Rightarrow> None
                                 | Some (out, err, st4, _, _) \<Rightarrow> Some (out, err, [], st4))
                              else
                                (let pre = (if \<not> repo_exists then drain (dt_walk dt top_dir) else []);
                                     dvc_walk = (if dt_exists dt top_dir then Some (dt_walk dt top_dir)
                                                 else None)
                                 in case u_walk fuel X st3 dvcfiles repo_walk dvc_walk of
                                      None \<Rightarrow> None
                                    | Some (out, err, st4, _, _) \<Rightarrow>
                                        Some (pre @ out, err, [], st4))))))"

definition walk_files ::
  "nat \<Rightarrow> externals \<Rightarrow> repotree \<Rightarrow> path \<Rightarrow> bool \<Rightarrow> bool \<Rightarrow> bool \<Rightarrow> bool option
     \<Rightarrow> (path list \<times> error option \<times> error list \<times> repotree) option" where
  "walk_files fuel X st top_dir topdown onerror dvcfiles follow_subrepos =
     (case walk fuel X st top_dir topdown onerror dvcfiles follow_subrepos of
        None \<Rightarrow> None
      | Some (out, err, calls, st') \<Rightarrow>
          Some (concat (map (\<lambda>(root, _, files). map (\<lambda>fname. root @ [fname]) files) out),
                err, calls, st'))"

subsection \<open>An example project\<close>

text \<open>
  A project at \<^verbatim>\<open>/r\<close>, used to evaluate the functions above at concrete inputs.

  The working tree holds the files \<^verbatim>\<open>a.txt\<close> and \<^verbatim>\<open>dvc.yaml\<close> and the directories
  \<^verbatim>\<open>sub\<close> (a nested project: it has a \<^verbatim>\<open>.dvc\<close> directory, and the file
  \<^verbatim>\<open>inner.txt\<close>), \<^verbatim>\<open>gen\<close> (with \<^verbatim>\<open>keep.bin\<close>), \<^verbatim>\<open>out\<close> (with \<^verbatim>\<open>log.txt\<close>) and
  \<^verbatim>\<open>src\<close> (with \<^verbatim>\<open>main.py\<close>).

  The managed tree knows the directory outputs \<^verbatim>\<open>gen\<close> (files \<^verbatim>\<open>keep.bin\<close> and
  \<^verbatim>\<open>gone.bin\<close>; the second was deleted from the working tree) and \<^verbatim>\<open>data\<close> (files
  \<^verbatim>\<open>x.bin\<close> and \<^verbatim>\<open>dvc.yaml\<close>; never checked out), the file output \<^verbatim>\<open>out\<close> (in the
  working tree that name is a directory), and the two file outputs \<^verbatim>\<open>models/a.pkl\<close> and
  \<^verbatim>\<open>models/b.pkl\<close> in the plain directory \<^verbatim>\<open>models\<close> (never checked out). The nested
  project tracks \<^verbatim>\<open>sub/model.pkl\<close>.
\<close>

text \<open>A walk over one directory whose children hold files only: \<open>leaf_dirs\<close> visits the
  children named in the list handed back, in order, and skips a name that is no child.\<close>

primrec leaf_dirs :: "path \<Rightarrow> (string \<times> string list) list \<Rightarrow> string list \<Rightarrow> walker" where
  "leaf_dirs root children [] = Exhausted"
| "leaf_dirs root children (d # ds) =
     (case map_of children d of
        None \<Rightarrow> leaf_dirs root children ds
      | Some files \<Rightarrow> Yield (root @ [d]) [] files (\<lambda>_. leaf_dirs root children ds))"

definition flat_walk :: "path \<Rightarrow> (string \<times> string list) list \<Rightarrow> string list \<Rightarrow> walker" where
  "flat_walk root children files =
     Yield root (map fst children) files (leaf_dirs root children)"

text \<open>A walk over the chain of directories \<^verbatim>\<open>/r/s/t\<close>, one file in each; it descends
  into a child only when the list handed back still names it.\<close>

definition ex_chain_walk :: walker where
  "ex_chain_walk =
     Yield [''r''] [''s''] [''top.txt'']
       (\<lambda>ds. if ''s'' \<in> set ds then
               Yield [''r'', ''s''] [''t''] [''mid.txt'']
                 (\<lambda>ds. if ''t'' \<in> set ds then
                         Yield [''r'', ''s'', ''t''] [] [''leaf.txt''] (\<lambda>_. Exhausted)
                       else Exhausted)
             else Exhausted)"

definition ex_dirs :: "path list" where
  "ex_dirs = [[''r''], [''r'', ''sub''], [''r'', ''sub'', ''.dvc''], [''r'', ''gen''],
              [''r'', ''out''], [''r'', ''src'']]"

definition ex_files :: "path list" where
  "ex_files = [[''r'', ''a.txt''], [''r'', ''dvc.yaml''], [''r'', ''sub'', ''inner.txt''],
               [''r'', ''gen'', ''keep.bin''], [''r'', ''out'', ''log.txt''],
               [''r'', ''src'', ''main.py'']]"

definition ex_tree :: working_tree where
  "ex_tree =
     \<lparr> wt_exists = (\<lambda>p. p \<in> set ex_dirs \<or> p \<in> set ex_files),
       wt_stat = (\<lambda>p. if p \<in> set ex_dirs then Inr 16877
                       else if p \<in> set ex_files then Inr 33188
                       else Inl FileNotFoundError),
       wt_isdir = (\<lambda>p. p \<in> set ex_dirs),
       wt_isexec = (\<lambda>p. False),
       wt_walk = (\<lambda>p ignore_subrepos.
          if p = [''r''] then
            flat_walk [''r'']
              ((if ignore_subrepos then [] else [(''sub'', [''inner.txt''])])
                 @ [(''gen'', [''keep.bin'']), (''out'', [''log.txt'']),
                    (''src'', [''main.py''])])
              [''a.txt'', ''dvc.yaml'']
          else if p = [''r'', ''sub''] then flat_walk p [] [''inner.txt'']
          else if p = [''r'', ''gen''] then flat_walk p [] [''keep.bin'']
          else if p = [''r'', ''out''] then flat_walk p [] [''log.txt'']
          else if p = [''r'', ''src''] then flat_walk p [] [''main.py'']
          else Exhausted),
       wt_info = (\<lambda>p. if p \<in> set ex_dirs then Inr [(''size'', 0)]
                       else if p \<in> set ex_files then Inr [(''size'', 7)]
                       else Inl FileNotFoundError) \<rparr>"

definition ex_repo :: repo where
  "ex_repo = \<lparr> root_dir = [''r''], tree = ex_tree, has_dvc_dir = True \<rparr>"

definition ex_git_repo :: repo where
  "ex_git_repo = \<lparr> root_dir = [''r''], tree = ex_tree, has_dvc_dir = False \<rparr>"

definition ex_subrepo :: repo where
  "ex_subrepo = \<lparr> root_dir = [''r'', ''sub''], tree = ex_tree, has_dvc_dir = True \<rparr>"

definition ex_meta :: "path \<Rightarrow> bool \<Rightarrow> path list \<Rightarrow> meta" where
  "ex_meta p d roots =
     \<lparr> md_path_info = p, md_repo = ex_repo,
       md_outs = map (\<lambda>q. \<lparr> out_path_info = q \<rparr>) roots,
       md_isdir = d, md_isfile = (\<not> d), md_is_exec = False \<rparr>"

definition ex_dvc_tree :: dvc_tree where
  "ex_dvc_tree =
     \<lparr> dt_metadata = (\<lambda>p.
          if p = [''r''] then
            Inr (ex_meta p True [[''r'', ''gen''], [''r'', ''data''], [''r'', ''out''],
                                 [''r'', ''models'', ''a.pkl''], [''r'', ''models'', ''b.pkl'']])
          else if p = [''r'', ''gen''] then Inr (ex_meta p True [[''r'', ''gen'']])
          else if p \<in> {[''r'', ''gen'', ''keep.bin''], [''r'', ''gen'', ''gone.bin'']} then
            Inr (ex_meta p False [[''r'', ''gen'']])
          else if p = [''r'', ''data''] then Inr (ex_meta p True [[''r'', ''data'']])
          else if p \<in> {[''r'', ''data'', ''x.bin''], [''r'', ''data'', ''dvc.yaml'']} then
            Inr (ex_meta p False [[''r'', ''data'']])
          else if p = [''r'', ''out''] then Inr (ex_meta p False [[''r'', ''out'']])
          else if p = [''r'', ''models''] then
            Inr (ex_meta p True [[''r'', ''models'', ''a.pkl''], [''r'', ''models'', ''b.pkl'']])
          else if p \<in> {[''r'', ''models'', ''a.pkl''], [''r'', ''models'', ''b.pkl'']} then
            Inr (ex_meta p False [p])
          else Inl FileNotFoundError),
       dt_exists = (\<lambda>p. p \<in> {[''r''], [''r'', ''gen''], [''r'', ''gen'', ''keep.bin''],
                               [''r'', ''gen'', ''gone.bin''], [''r'', ''data''],
                               [''r'', ''data'', ''x.bin''], [''r'', ''data'', ''dvc.yaml''],
                               [''r'', ''out''],
                               [''r'', ''models''], [''r'', ''models'', ''a.pkl''],
                               [''r'', ''models'', ''b.pkl'']}),
       dt_isdvc = (\<lambda>p. p \<in> {[''r'', ''gen''], [''r'', ''data''], [''r'', ''out''],
                              [''r'', ''models'', ''a.pkl''], [''r'', ''models'', ''b.pkl'']}),
       dt_isexec = (\<lambda>p. False),
       dt_walk = (\<lambda>p.
          if p = [''r''] then
            flat_walk p [(''gen'', [''keep.bin'', ''gone.bin'']),
                         (''data'', [''x.bin'', ''dvc.yaml'']),
                         (''models'', [''a.pkl'', ''b.pkl''])] [''out'']
          else if p = [''r'', ''gen''] then flat_walk p [] [''keep.bin'', ''gone.bin'']
          else if p = [''r'', ''data''] then flat_walk p [] [''x.bin'', ''dvc.yaml'']
          else if p = [''r'', ''models''] then flat_walk p [] [''a.pkl'', ''b.pkl'']
          else Exhausted),
       dt_info = (\<lambda>p. if p = [''r'', ''data'', ''x.bin''] then Inr [(''size'', 3)]
                       else Inl FileNotFoundError) \<rparr>"

definition ex_sub_dvc_tree :: dvc_tree where
  "ex_sub_dvc_tree =
     \<lparr> dt_metadata = (\<lambda>p.
          if p = [''r'', ''sub'', ''model.pkl''] then
            Inr \<lparr> md_path_info = p, md_repo = ex_subrepo,
                  md_outs = [\<lparr> out_path_info = p \<rparr>],
                  md_isdir = False, md_isfile = True, md_is_exec = False \<rparr>
          else Inl FileNotFoundError),
       dt_exists = (\<lambda>p. p = [''r'', ''sub''] \<or> p = [''r'', ''sub'', ''model.pkl'']),
       dt_isdvc = (\<lambda>p. p = [''r'', ''sub'', ''model.pkl'']),
       dt_isexec = (\<lambda>p. False),
       dt_walk = (\<lambda>p. if p = [''r'', ''sub''] then flat_walk p [] [''model.pkl'']
                       else Exhausted),
       dt_info = (\<lambda>p. Inl FileNotFoundError) \<rparr>"

definition ex_externals :: externals where
  "ex_externals =
     \<lparr> DVC_DIR = ''.dvc'',
       DVCIGNORE_FILE = ''.dvcignore'',
       is_valid_filename = (\<lambda>fname. fname = ''dvc.yaml'' \<or> fname = ''Dvcfile''),
       is_exec = (\<lambda>mode. (mode div 64) mod 2 = 1),
       DvcTree = (\<lambda>r. if root_dir r = [''r''] then ex_dvc_tree else ex_sub_dvc_tree),
       Metadata = (\<lambda>p r. \<lparr> md_path_info = p, md_repo = r, md_outs = [],
                             md_isdir = False, md_isfile = True, md_is_exec = False \<rparr>) \<rparr>"

definition ex_factory :: "path \<Rightarrow> error + repo" where
  "ex_factory d = (if d = [''r'', ''sub''] then Inr ex_subrepo else Inl RuntimeError)"

text \<open>The instance over the project with subrepo traversal on, and the instance over the
  same working tree when the project has no \<^verbatim>\<open>dvc_dir\<close> (a plain git repository).\<close>

definition ex_st :: repotree where
  "ex_st = init ex_externals ex_repo True ex_factory"

definition ex_git_st :: repotree where
  "ex_git_st = init ex_externals ex_git_repo False ex_factory"

section \<open>Auxiliary facts\<close>

subsection \<open>Resolution\<close>

lemma u_update_other:
  "k \<notin> set dirs \<Longrightarrow> subrepos_trie (snd (u_update X st dirs r)) k = subrepos_trie st k"
proof (induction dirs arbitrary: st r)
  case Nil
  show ?case by simp
next
  case (Cons d dirs)
  then have k: "k \<noteq> d" "k \<notin> set dirs" by auto
  show ?case
  proof (cases "u_is_dvc_repo X st d")
    case False
    then show ?thesis using Cons.IH[OF k(2)] k(1) by simp
  next
    case True
    show ?thesis
    proof (cases "repo_factory st d")
      case (Inl e)
      with True show ?thesis by simp
    next
      case (Inr r')
      with True show ?thesis using Cons.IH[OF k(2)] k(1) by simp
    qed
  qed
qed


lemma u_update_last:
  "u_update X st dirs r = (Inr u, st') \<Longrightarrow> dirs \<noteq> [] \<Longrightarrow> subrepos_trie st' (last dirs) \<noteq> None"
proof (induction dirs arbitrary: st r)
  case Nil
  then show ?case by simp
next
  case (Cons d dirs)
  show ?case
  proof (cases "dirs = []")
    case True
    show ?thesis
    proof (cases "u_is_dvc_repo X st d")
      case False
      with True Cons.prems(1) show ?thesis by auto
    next
      case T: True
      show ?thesis
      proof (cases "repo_factory st d")
        case (Inl e)
        with T Cons.prems(1) show ?thesis by simp
      next
        case (Inr r')
        with T True Cons.prems(1) show ?thesis by auto
      qed
    qed
  next
    case False
    show ?thesis
    proof (cases "u_is_dvc_repo X st d")
      case F: False
      with Cons.prems(1) have "u_update X (st\<lparr>subrepos_trie := (subrepos_trie st)(d \<mapsto> r)\<rparr>) dirs r = (Inr u, st')"
        by simp
      from Cons.IH[OF this False] False show ?thesis by simp
    next
      case T: True
      show ?thesis
      proof (cases "repo_factory st d")
        case (Inl e)
        with T Cons.prems(1) show ?thesis by simp
      next
        case (Inr r')
        with T Cons.prems(1) have "u_update X
               (st\<lparr>factory_calls := factory_calls st @ [d],
                   dvctrees := (dvctrees st)(root_dir r' \<mapsto> DvcTree X r'),
                   subrepos_trie := (subrepos_trie st)(d \<mapsto> r')\<rparr>)
               dirs r' = (Inr u, st')" by simp
        from Cons.IH[OF this False] False show ?thesis by simp
      qed
    qed
  qed
qed

lemma takeWhile_before_find:
  "find P xs = Some y \<Longrightarrow> x \<in> set (takeWhile (\<lambda>q. q \<noteq> y) xs) \<Longrightarrow> \<not> P x"
  by (induction xs) (auto split: if_splits)

lemma longest_prefix_dirs_fresh:
  assumes "t p = None" and "longest_prefix t p = Some (prefix, r)"
    and "q \<in> set (rev (p # takeWhile (\<lambda>q. q \<noteq> prefix) (parents p)))"
  shows "t q = None"
proof -
  from assms(1,2) have f: "find (\<lambda>q. \<not> Option.is_none (t q)) (parents p) = Some prefix"
    unfolding longest_prefix_def by (simp add: Option.is_none_def split: option.splits)
  from assms(3) consider "q = p" | "q \<in> set (takeWhile (\<lambda>q. q \<noteq> prefix) (parents p))"
    by auto
  then show ?thesis
  proof cases
    case 1 with assms(1) show ?thesis by simp
  next
    case 2
    from takeWhile_before_find[OF f 2] show ?thesis by (simp add: Option.is_none_def)
  qed
qed


lemma u_get_repo_hit:
  "subrepos_trie st p = Some r \<Longrightarrow> u_get_repo X st p = (Inr (Some r), st)"
  by (simp add: u_get_repo_def)

lemma u_get_repo_no_prefix:
  "subrepos_trie st p = None \<Longrightarrow> longest_prefix (subrepos_trie st) p = None
     \<Longrightarrow> u_get_repo X st p = (Inr None, st)"
  by (simp add: u_get_repo_def)

lemma u_get_repo_discover:
  "subrepos_trie st p = None \<Longrightarrow> longest_prefix (subrepos_trie st) p = Some (prefix, r)
     \<Longrightarrow> u_get_repo X st p =
        (case u_update X st (rev (p # takeWhile (\<lambda>q. q \<noteq> prefix) (parents p))) r of
           (Inl e, st') \<Rightarrow> (Inl e, st')
         | (Inr _, st') \<Rightarrow> (Inr (subrepos_trie st' p), st'))"
  by (simp add: u_get_repo_def)

lemma u_get_repo_trie_mono:
  assumes k: "subrepos_trie st k = Some v"
  shows "subrepos_trie (snd (u_get_repo X st p)) k = Some v"
proof (cases "subrepos_trie st p")
  case (Some r)
  with k show ?thesis by (simp add: u_get_repo_hit)
next
  case None
  show ?thesis
  proof (cases "longest_prefix (subrepos_trie st) p")
    case N: None
    with None k show ?thesis by (simp add: u_get_repo_no_prefix)
  next
    case (Some a)
    obtain prefix r where a: "a = (prefix, r)" by (cases a)
    let ?dirs = "rev (p # takeWhile (\<lambda>q. q \<noteq> prefix) (parents p))"
    have "k \<notin> set ?dirs"
    proof
      assume "k \<in> set ?dirs"
      from longest_prefix_dirs_fresh[OF None Some[unfolded a] this] k show False by simp
    qed
    then have u: "subrepos_trie (snd (u_update X st ?dirs r)) k = subrepos_trie st k"
      by (rule u_update_other)
    have "snd (u_get_repo X st p) = snd (u_update X st ?dirs r)"
      unfolding u_get_repo_discover[OF None Some[unfolded a]]
      by (simp split: prod.splits sum.splits)
    with u k show ?thesis by simp
  qed
qed

lemma u_get_repo_again:
  assumes "u_get_repo X st p = (Inr r, st')"
  shows "u_get_repo X st' p = (Inr r, st')"
proof (cases "subrepos_trie st p")
  case (Some r0)
  from assms have "r = Some r0" "st' = st"
    unfolding u_get_repo_hit[OF Some] by simp_all
  with Some show ?thesis by (simp add: u_get_repo_hit)
next
  case None
  show ?thesis
  proof (cases "longest_prefix (subrepos_trie st) p")
    case N: None
    from assms have "r = None" "st' = st"
      unfolding u_get_repo_no_prefix[OF None N] by simp_all
    with None N show ?thesis by (simp add: u_get_repo_no_prefix)
  next
    case (Some a)
    obtain prefix r0 where a: "a = (prefix, r0)" by (cases a)
    let ?dirs = "rev (p # takeWhile (\<lambda>q. q \<noteq> prefix) (parents p))"
    obtain res st1 where up: "u_update X st ?dirs r0 = (res, st1)" by (cases "u_update X st ?dirs r0")
    from assms up obtain u where res: "res = Inr u" and st1: "st1 = st'" and r: "r = subrepos_trie st' p"
      unfolding u_get_repo_discover[OF None Some[unfolded a]]
      by (cases res) auto
    have "subrepos_trie st' (last ?dirs) \<noteq> None"
      by (rule u_update_last[OF up[unfolded res st1]]) simp
    then obtain x where "subrepos_trie st' p = Some x" by auto
    with r show ?thesis by (simp add: u_get_repo_hit)
  qed
qed

subsection \<open>The merged walk\<close>

lemma filter_all: "(\<And>x. x \<in> set xs \<Longrightarrow> P x) \<Longrightarrow> filter P xs = xs"
  by (induction xs) auto

lemma filter_none: "(\<And>x. x \<in> set xs \<Longrightarrow> \<not> P x) \<Longrightarrow> filter P xs = []"
  by (induction xs) auto

lemma in_walk_shared: "d \<in> set (walk_shared dvc_dirs repo_dirs) \<longleftrightarrow> d \<in> set dvc_dirs \<and> d \<in> set repo_dirs"
  by (auto simp: walk_shared_def)

lemma in_walk_dvc_only: "d \<in> set (walk_dvc_only dvc_dirs repo_dirs) \<longleftrightarrow> d \<in> set dvc_dirs \<and> d \<notin> set repo_dirs"
  by (auto simp: walk_dvc_only_def)

lemma in_walk_repo_only: "d \<in> set (walk_repo_only dvc_dirs repo_dirs) \<longleftrightarrow> d \<in> set repo_dirs \<and> d \<notin> set dvc_dirs"
  by (auto simp: walk_repo_only_def)

lemma in_walk_subrepos:
  "d \<in> set (walk_subrepos X st repo_root (walk_repo_only dvc_dirs repo_dirs))
     \<longleftrightarrow> d \<in> set repo_dirs \<and> d \<notin> set dvc_dirs \<and> u_is_dvc_repo X st (repo_root @ [d])"
  by (auto simp: walk_subrepos_def in_walk_repo_only)

lemma level_actions_order:
  "level_actions X st repo_root dvc_dirs repo_dirs =
      map (\<lambda>_. WalkShared) (walk_shared dvc_dirs repo_dirs)
    @ map (\<lambda>_. WalkDvcOnly) (walk_dvc_only dvc_dirs repo_dirs)
    @ map (\<lambda>d. if u_is_dvc_repo X st (repo_root @ [d]) then WalkSubrepo (repo_root @ [d])
               else WalkRepoOnly) (walk_repo_only dvc_dirs repo_dirs)"
proof -
  let ?sub = "walk_subrepos X st repo_root (walk_repo_only dvc_dirs repo_dirs)"
  let ?disp = "dispatch ?sub (walk_shared dvc_dirs repo_dirs) dvc_dirs repo_dirs repo_root"
  have a: "map ?disp (walk_shared dvc_dirs repo_dirs) = map (\<lambda>_. WalkShared) (walk_shared dvc_dirs repo_dirs)"
    by (rule map_cong[OF refl]) (simp add: dispatch_def in_walk_subrepos in_walk_shared)
  have b: "map ?disp (walk_dvc_only dvc_dirs repo_dirs) = map (\<lambda>_. WalkDvcOnly) (walk_dvc_only dvc_dirs repo_dirs)"
    by (rule map_cong[OF refl]) (simp add: dispatch_def in_walk_subrepos in_walk_shared in_walk_dvc_only)
  have c: "map ?disp (walk_repo_only dvc_dirs repo_dirs)
            = map (\<lambda>d. if u_is_dvc_repo X st (repo_root @ [d]) then WalkSubrepo (repo_root @ [d])
               else WalkRepoOnly) (walk_repo_only dvc_dirs repo_dirs)"
    by (rule map_cong[OF refl]) (simp add: dispatch_def in_walk_subrepos in_walk_shared in_walk_repo_only)
  show ?thesis
    unfolding level_actions_def walk_dirs_def map_append a b c ..
qed

lemma next_dvc_dirs_eq:
  "next_dvc_dirs dvc_dirs repo_dirs = walk_shared dvc_dirs repo_dirs @ walk_dvc_only dvc_dirs repo_dirs"
proof -
  have a: "filter (\<lambda>d. d \<in> set dvc_dirs) (walk_shared dvc_dirs repo_dirs) = walk_shared dvc_dirs repo_dirs"
    by (rule filter_all) (simp add: in_walk_shared)
  have b: "filter (\<lambda>d. d \<in> set dvc_dirs) (walk_dvc_only dvc_dirs repo_dirs) = walk_dvc_only dvc_dirs repo_dirs"
    by (rule filter_all) (simp add: in_walk_dvc_only)
  have c: "filter (\<lambda>d. d \<in> set dvc_dirs) (walk_repo_only dvc_dirs repo_dirs) = []"
    by (rule filter_none) (simp add: in_walk_repo_only)
  show ?thesis
    unfolding next_dvc_dirs_def walk_dirs_def filter_append a b c by simp
qed

lemma next_repo_dirs_eq:
  "next_repo_dirs (walk_subrepos X st repo_root (walk_repo_only dvc_dirs repo_dirs)) dvc_dirs repo_dirs
     = walk_shared dvc_dirs repo_dirs
       @ [d \<leftarrow> walk_repo_only dvc_dirs repo_dirs. \<not> u_is_dvc_repo X st (repo_root @ [d])]"
proof -
  let ?sub = "walk_subrepos X st repo_root (walk_repo_only dvc_dirs repo_dirs)"
  let ?P = "\<lambda>d. d \<in> set repo_dirs - set ?sub"
  have a: "filter ?P (walk_shared dvc_dirs repo_dirs) = walk_shared dvc_dirs repo_dirs"
    by (rule filter_all) (simp add: in_walk_shared in_walk_subrepos)
  have b: "filter ?P (walk_dvc_only dvc_dirs repo_dirs) = []"
    by (rule filter_none) (simp add: in_walk_dvc_only)
  have c: "filter ?P (walk_repo_only dvc_dirs repo_dirs)
             = [d \<leftarrow> walk_repo_only dvc_dirs repo_dirs. \<not> u_is_dvc_repo X st (repo_root @ [d])]"
    by (rule filter_cong[OF refl]) (simp add: in_walk_repo_only in_walk_subrepos)
  show ?thesis
    unfolding next_repo_dirs_def walk_dirs_def filter_append a b c by simp
qed


lemma walk_loop_shared:
  "walk_loop n X st dvcfiles [WalkShared] rw dw = u_walk n X st dvcfiles rw dw"
proof (cases "u_walk n X st dvcfiles rw dw")
  case None
  then show ?thesis by simp
next
  case (Some r)
  obtain out err st1 rw1 dw1 where r: "r = (out, err, st1, rw1, dw1)" by (cases r)
  show ?thesis using Some r by (cases err) simp_all
qed

lemma walk_loop_dvc_only:
  "walk_loop n X st dvcfiles [WalkDvcOnly] rw (Some w) =
     (case u_dvc_walk n w of
        None \<Rightarrow> None
      | Some (out, w') \<Rightarrow> Some (out, None, st, rw, Some w'))"
  by (cases "u_dvc_walk n w") auto

lemma walk_loop_repo_only:
  "walk_loop n X st dvcfiles [WalkRepoOnly] rw dw =
     (case u_walk n X st dvcfiles rw None of
        None \<Rightarrow> None
      | Some (out, err, st', rw', _) \<Rightarrow> Some (out, err, st', rw', dw))"
proof (cases "u_walk n X st dvcfiles rw None")
  case None
  then show ?thesis by simp
next
  case (Some r)
  obtain out err st1 rw1 dw1 where r: "r = (out, err, st1, rw1, dw1)" by (cases r)
  show ?thesis using Some r by (cases err) simp_all
qed

lemma walk_loop_subrepo:
  "walk_loop n X st dvcfiles [WalkSubrepo dir_path] rw dw =
     (case u_subrepo_walk n X st dvcfiles dir_path of
        None \<Rightarrow> None
      | Some (out, err, st') \<Rightarrow> Some (out, err, st', rw, dw))"
proof (cases "u_subrepo_walk n X st dvcfiles dir_path")
  case None
  then show ?thesis by simp
next
  case (Some r)
  obtain out err st1 where r: "r = (out, err, st1)" by (cases r)
  show ?thesis using Some r by (cases err) simp_all
qed

lemma u_walk_level:
  "u_walk (Suc n) X st dvcfiles (Yield repo_root repo_dirs repo_fnames rk)
       (Some (Yield dvc_root dvc_dirs dvc_fnames dk)) =
     (case walk_loop n X st dvcfiles (level_actions X st repo_root dvc_dirs repo_dirs)
             (rk (next_repo_dirs
                    (walk_subrepos X st repo_root (walk_repo_only dvc_dirs repo_dirs))
                    dvc_dirs repo_dirs))
             (Some (dk (next_dvc_dirs dvc_dirs repo_dirs))) of
        None \<Rightarrow> None
      | Some (out, rest) \<Rightarrow>
          Some ((repo_root, walk_dirs dvc_dirs repo_dirs,
                 merged_files X dvcfiles dvc_fnames repo_fnames) # out, rest))"
  by (simp add: Let_def split: option.splits)

lemma u_walk_level_repo:
  "u_walk (Suc n) X st dvcfiles (Yield repo_root repo_dirs repo_fnames rk) None =
     (case walk_loop n X st dvcfiles (level_actions X st repo_root [] repo_dirs)
             (rk (next_repo_dirs (walk_subrepos X st repo_root (walk_repo_only [] repo_dirs))
                    [] repo_dirs))
             None of
        None \<Rightarrow> None
      | Some (out, rest) \<Rightarrow>
          Some ((repo_root, walk_dirs [] repo_dirs, merged_files X dvcfiles [] repo_fnames) # out,
                rest))"
  by (simp add: Let_def split: option.splits)

lemma u_walk_repo_exhausted:
  "\<exists>dw'. u_walk (Suc n) X st dvcfiles Exhausted dw = Some ([], None, st, Exhausted, dw')"
proof (cases dw)
  case None
  then show ?thesis by simp
next
  case (Some w)
  then show ?thesis by (cases w) simp_all
qed

lemma walk_loop_cons:
  "walk_loop n X st dvcfiles (a # as) rw dw =
     (case walk_loop n X st dvcfiles [a] rw dw of
        None \<Rightarrow> None
      | Some (out1, Some e, rest) \<Rightarrow> Some (out1, Some e, rest)
      | Some (out1, None, st1, rw1, dw1) \<Rightarrow>
         (case walk_loop n X st1 dvcfiles as rw1 dw1 of
            None \<Rightarrow> None
          | Some (out2, rest) \<Rightarrow> Some (out1 @ out2, rest)))"
  by (simp split: option.splits prod.splits action.splits)

lemma u_subrepo_walk_fresh:
  "u_subrepo_walk n X st dvcfiles dir_path =
     (case u_get_tree_pair X st dir_path of
        (Inl e, st') \<Rightarrow> Some ([], Some e, st')
      | (Inr (t, dvc), st') \<Rightarrow>
         (case u_walk n X st' dvcfiles (wt_walk t dir_path (\<not> traverse_subrepos st'))
                 (map_option (\<lambda>dt. dt_walk dt dir_path) dvc) of
            None \<Rightarrow> None
          | Some (out, err, st'', _, _) \<Rightarrow> Some (out, err, st'')))"
  by (simp add: Let_def map_option_case split: prod.splits sum.splits)

lemma dvc_walk_drain:
  "u_dvc_walk n w = Some (out, w') \<Longrightarrow> drain w = out @ drain w'"
  "dvc_walk_loop n ds w = Some (out, w') \<Longrightarrow> drain w = out @ drain w'"
proof (induction n w and n ds w arbitrary: out w' and out w' rule: u_dvc_walk_dvc_walk_loop.induct)
  case (1 w)
  then show ?case by simp
next
  case (2 n)
  then show ?case by simp
next
  case (3 n root dirs files k)
  from "3.prems" obtain out1 where l: "dvc_walk_loop n dirs (k dirs) = Some (out1, w')"
    and o: "out = (root, dirs, files) # out1"
    by (auto split: option.splits)
  from "3.IH"[OF l] o show ?case by simp
next
  case (4 n w)
  then show ?case by simp
next
  case (5 n d ds w)
  from "5.prems" obtain out1 w1 out2 where a: "u_dvc_walk n w = Some (out1, w1)"
    and b: "dvc_walk_loop n ds w1 = Some (out2, w')" and o: "out = out1 @ out2"
    by (auto split: option.splits)
  from "5.IH"(1)[OF a] "5.IH"(2)[OF a _ b] o show ?case by simp
qed

lemma dvc_walk_drain_imp:
  "u_dvc_walk n w = Some (out, w') \<longrightarrow> drain w = out @ drain w'"
  by (blast intro: dvc_walk_drain(1))

lemma level_actions_no_managed:
  "level_actions X st repo_root [] repo_dirs =
     map (\<lambda>d. if u_is_dvc_repo X st (repo_root @ [d]) then WalkSubrepo (repo_root @ [d])
               else WalkRepoOnly) (remdups repo_dirs)"
  unfolding level_actions_order
  by (simp add: walk_shared_def walk_dvc_only_def walk_repo_only_def)

lemma u_walk_ends:
  "u_walk 0 X st dvcfiles rw dw = None"
  "u_walk (Suc n) X st dvcfiles rw (Some Exhausted) = Some ([], None, st, rw, Some Exhausted)"
  "u_walk (Suc n) X st dvcfiles Exhausted None = Some ([], None, st, Exhausted, None)"
  "u_walk (Suc n) X st dvcfiles Exhausted (Some (Yield dvc_root dvc_dirs dvc_fnames dk))
     = Some ([], None, st, Exhausted, Some (dk dvc_dirs))"
  by simp_all

lemma walk_loop_other:
  "walk_loop n X st dvcfiles [] rw dw = Some ([], None, st, rw, dw)"
  "walk_loop n X st dvcfiles [WalkDvcOnly] rw None = Some ([], Some TypeError, st, rw, None)"
  "walk_loop n X st dvcfiles [WalkNone] rw dw = Some ([], None, st, rw, dw)"
  by simp_all

lemma u_dvc_walk_eqs:
  "u_dvc_walk 0 w = None"
  "u_dvc_walk (Suc n) Exhausted = Some ([], Exhausted)"
  "u_dvc_walk (Suc n) (Yield root dirs files k)
     = (case dvc_walk_loop n dirs (k dirs) of
          None \<Rightarrow> None
        | Some (out, w') \<Rightarrow> Some ((root, dirs, files) # out, w'))"
  "dvc_walk_loop n [] w = Some ([], w)"
  "dvc_walk_loop n (d # ds) w
     = (case u_dvc_walk n w of
          None \<Rightarrow> None
        | Some (out1, w1) \<Rightarrow>
           (case dvc_walk_loop n ds w1 of
              None \<Rightarrow> None
            | Some (out2, w2) \<Rightarrow> Some (out1 @ out2, w2)))"
  by simp_all

lemma merged_files_set:
  "set (merged_files X dvcfiles dvc_fnames repo_fnames)
     = {f \<in> set dvc_fnames \<union> set repo_fnames.
          dvcfiles \<or> \<not> (is_valid_filename X f \<or> f = DVCIGNORE_FILE X)}"
  "distinct (merged_files X dvcfiles dvc_fnames repo_fnames)"
  by (auto simp: merged_files_def u_func_def)

subsection \<open>The example project\<close>

lemma pair_collapse: "fst x = a \<Longrightarrow> x = (a, snd x)"
  by (cases x) simp

lemma ex_repo_fields:
  "root_dir ex_repo = [''r'']" "tree ex_repo = ex_tree" "has_dvc_dir ex_repo = True"
  "root_dir ex_git_repo = [''r'']" "tree ex_git_repo = ex_tree" "has_dvc_dir ex_git_repo = False"
  "root_dir ex_subrepo = [''r'', ''sub'']" "tree ex_subrepo = ex_tree"
  by (simp_all add: ex_repo_def ex_git_repo_def ex_subrepo_def)

lemma ex_tree_fields:
  "wt_exists ex_tree p = (p \<in> set ex_dirs \<or> p \<in> set ex_files)"
  "wt_stat ex_tree p = (if p \<in> set ex_dirs then Inr 16877
                       else if p \<in> set ex_files then Inr 33188
                       else Inl FileNotFoundError)"
  "wt_isdir ex_tree p = (p \<in> set ex_dirs)"
  "wt_info ex_tree p = (if p \<in> set ex_dirs then Inr [(''size'', 0)]
                       else if p \<in> set ex_files then Inr [(''size'', 7)]
                       else Inl FileNotFoundError)"
  by (simp_all add: ex_tree_def)

lemma ex_externals_fields:
  "DVC_DIR ex_externals = ''.dvc''"
  "DVCIGNORE_FILE ex_externals = ''.dvcignore''"
  "is_valid_filename ex_externals f = (f = ''dvc.yaml'' \<or> f = ''Dvcfile'')"
  "DvcTree ex_externals r = (if root_dir r = [''r''] then ex_dvc_tree else ex_sub_dvc_tree)"
  by (simp_all add: ex_externals_def)

lemma ex_st_fields:
  "main_repo ex_st = ex_repo" "traverse_subrepos ex_st = True"
  "repo_factory ex_st = ex_factory"
  "subrepos_trie ex_st = [[''r''] \<mapsto> ex_repo]"
  "dvctrees ex_st = [[''r''] \<mapsto> ex_dvc_tree]"
  "factory_calls ex_st = []"
  "main_repo ex_git_st = ex_git_repo" "traverse_subrepos ex_git_st = False"
  "subrepos_trie ex_git_st = [[''r''] \<mapsto> ex_git_repo]"
  "dvctrees ex_git_st = Map.empty"
  by (simp_all add: ex_st_def ex_git_st_def init_def ex_repo_fields ex_externals_fields)

lemmas ex_eval = ex_repo_fields ex_tree_fields ex_externals_fields ex_st_fields
  ex_dirs_def ex_files_def ex_factory_def
  u_get_tree_pair_def u_get_repo_def longest_prefix_def u_is_dvc_repo_def parents.simps

lemma ex_pair_data:
  "fst (u_get_tree_pair ex_externals ex_st [''r'', ''data'']) = Inr (ex_tree, Some ex_dvc_tree)"
  by (simp add: ex_eval)

lemma ex_pair_git:
  "fst (u_get_tree_pair ex_externals ex_git_st [''r'', ''zzz'']) = Inr (ex_tree, None)"
  by (simp add: ex_eval)

lemma ex_pair_sub:
  "fst (u_get_tree_pair ex_externals ex_st [''r'', ''sub'', ''inner.txt'']) = Inr (ex_tree, Some ex_sub_dvc_tree)"
  by (simp add: ex_eval)



lemma ex_walk_root:
  "map_option (\<lambda>(out, err, calls, _). (out, err, calls))
     (walk (Suc (Suc 0)) ex_externals ex_st [''r''] True False False None)
   = Some ([([''r''], [''gen'', ''data'', ''models'', ''sub'', ''out'', ''src''], [''out'', ''a.txt'']),
            ([''r'', ''gen''], [], [''gone.bin'', ''keep.bin'']),
            ([''r'', ''data''], [], [''x.bin'', ''dvc.yaml'']),
            ([''r'', ''models''], [], [''a.pkl'', ''b.pkl'']),
            ([''r'', ''sub''], [], [''model.pkl'', ''inner.txt'']),
            ([''r'', ''out''], [], [''log.txt'']),
            ([''r'', ''src''], [], [''main.py''])], None, [])"
  by code_simp

lemma ex_chain_runs:
  "u_walk (Suc (Suc (Suc 0))) ex_externals ex_git_st False ex_chain_walk None
     = Some ([([''r''], [''s''], [''top.txt'']), ([''r'', ''s''], [''t''], [''mid.txt'']),
              ([''r'', ''s'', ''t''], [], [''leaf.txt''])], None, ex_git_st, Exhausted, None)"
  "u_dvc_walk (Suc (Suc (Suc 0))) ex_chain_walk
     = Some ([([''r''], [''s''], [''top.txt'']), ([''r'', ''s''], [''t''], [''mid.txt'']),
              ([''r'', ''s'', ''t''], [], [''leaf.txt''])], Exhausted)"
  by (simp_all add: ex_chain_walk_def Let_def level_actions_def walk_dirs_def walk_shared_def
        walk_dvc_only_def walk_repo_only_def dispatch_def walk_subrepos_def next_repo_dirs_def
        next_dvc_dirs_def merged_files_def u_func_def ex_externals_fields u_is_dvc_repo_def
        ex_st_fields)

section \<open>The claims\<close>

text \<open>
  \<^bold>\<open>C1.\<close> The final loop of \<open>_walk\<close> runs over the child directories in the order shared,
  then managed-only, then working-only, whether or not a managed generator takes part,
  and takes for each the branch of its class. A shared directory is walked by \<open>_walk\<close> on
  both generators. A managed-only one is walked by \<open>_dvc_walk\<close> on the managed generator
  alone: it yields the next items of that generator, as they are, and leaves it after
  them, and the working generator and the instance stay as they are. A working-only one
  is walked by \<open>_walk\<close> on the working generator alone, and the managed generator stays as
  it is. A working-only directory that is a subrepo root is walked by \<open>_subrepo_walk\<close>, a
  new merge over the generators of the tree pair of that directory, and both generators
  of the parent stay as they are. The lists written back into the two generators are the
  shared directories followed by the managed-only ones, and the shared directories
  followed by the working-only ones that are no subrepo roots. The statement gives every
  case of \<open>_walk\<close>, of its loop, of \<open>_dvc_walk\<close> and of \<open>_subrepo_walk\<close>.
\<close>

theorem walk_recursion_order:
  "level_actions X st repo_root dvc_dirs repo_dirs =
       map (\<lambda>_. WalkShared) (walk_shared dvc_dirs repo_dirs)
     @ map (\<lambda>_. WalkDvcOnly) (walk_dvc_only dvc_dirs repo_dirs)
     @ map (\<lambda>d. if u_is_dvc_repo X st (repo_root @ [d]) then WalkSubrepo (repo_root @ [d])
                else WalkRepoOnly) (walk_repo_only dvc_dirs repo_dirs)
   \<and> level_actions X st repo_root [] repo_dirs =
       map (\<lambda>d. if u_is_dvc_repo X st (repo_root @ [d]) then WalkSubrepo (repo_root @ [d])
                else WalkRepoOnly) (remdups repo_dirs)
   \<and> next_dvc_dirs dvc_dirs repo_dirs
       = walk_shared dvc_dirs repo_dirs @ walk_dvc_only dvc_dirs repo_dirs
   \<and> next_repo_dirs (walk_subrepos X st repo_root (walk_repo_only dvc_dirs repo_dirs))
         dvc_dirs repo_dirs
       = walk_shared dvc_dirs repo_dirs
         @ [d \<leftarrow> walk_repo_only dvc_dirs repo_dirs. \<not> u_is_dvc_repo X st (repo_root @ [d])]
   \<and> (u_dvc_walk n w = Some (out, w') \<longrightarrow> drain w = out @ drain w')
   \<and> u_walk 0 X st dvcfiles rw dw = None
   \<and> u_walk (Suc n) X st dvcfiles rw (Some Exhausted) = Some ([], None, st, rw, Some Exhausted)
   \<and> u_walk (Suc n) X st dvcfiles Exhausted None = Some ([], None, st, Exhausted, None)
   \<and> u_walk (Suc n) X st dvcfiles Exhausted (Some (Yield dvc_root dvc_dirs dvc_fnames dk))
       = Some ([], None, st, Exhausted, Some (dk dvc_dirs))
   \<and> u_walk (Suc n) X st dvcfiles (Yield repo_root repo_dirs repo_fnames rk)
         (Some (Yield dvc_root dvc_dirs dvc_fnames dk))
       = (case walk_loop n X st dvcfiles (level_actions X st repo_root dvc_dirs repo_dirs)
                 (rk (next_repo_dirs
                        (walk_subrepos X st repo_root (walk_repo_only dvc_dirs repo_dirs))
                        dvc_dirs repo_dirs))
                 (Some (dk (next_dvc_dirs dvc_dirs repo_dirs))) of
            None \<Rightarrow> None
          | Some (out, rest) \<Rightarrow>
              Some ((repo_root, walk_dirs dvc_dirs repo_dirs,
                     merged_files X dvcfiles dvc_fnames repo_fnames) # out, rest))
   \<and> u_walk (Suc n) X st dvcfiles (Yield repo_root repo_dirs repo_fnames rk) None
       = (case walk_loop n X st dvcfiles (level_actions X st repo_root [] repo_dirs)
                 (rk (next_repo_dirs
                        (walk_subrepos X st repo_root (walk_repo_only [] repo_dirs))
                        [] repo_dirs))
                 None of
            None \<Rightarrow> None
          | Some (out, rest) \<Rightarrow>
              Some ((repo_root, walk_dirs [] repo_dirs,
                     merged_files X dvcfiles [] repo_fnames) # out, rest))
   \<and> walk_loop n X st dvcfiles [] rw dw = Some ([], None, st, rw, dw)
   \<and> walk_loop n X st dvcfiles (a # as) rw dw
       = (case walk_loop n X st dvcfiles [a] rw dw of
            None \<Rightarrow> None
          | Some (out1, Some e, rest) \<Rightarrow> Some (out1, Some e, rest)
          | Some (out1, None, st1, rw1, dw1) \<Rightarrow>
             (case walk_loop n X st1 dvcfiles as rw1 dw1 of
                None \<Rightarrow> None
              | Some (out2, rest) \<Rightarrow> Some (out1 @ out2, rest)))
   \<and> walk_loop n X st dvcfiles [WalkShared] rw dw = u_walk n X st dvcfiles rw dw
   \<and> walk_loop n X st dvcfiles [WalkDvcOnly] rw (Some w)
       = (case u_dvc_walk n w of
            None \<Rightarrow> None
          | Some (out, w') \<Rightarrow> Some (out, None, st, rw, Some w'))
   \<and> walk_loop n X st dvcfiles [WalkDvcOnly] rw None = Some ([], Some TypeError, st, rw, None)
   \<and> walk_loop n X st dvcfiles [WalkRepoOnly] rw dw
       = (case u_walk n X st dvcfiles rw None of
            None \<Rightarrow> None
          | Some (out, err, st', rw', _) \<Rightarrow> Some (out, err, st', rw', dw))
   \<and> walk_loop n X st dvcfiles [WalkSubrepo dir_path] rw dw
       = (case u_subrepo_walk n X st dvcfiles dir_path of
            None \<Rightarrow> None
          | Some (out, err, st') \<Rightarrow> Some (out, err, st', rw, dw))
   \<and> walk_loop n X st dvcfiles [WalkNone] rw dw = Some ([], None, st, rw, dw)
   \<and> u_subrepo_walk n X st dvcfiles dir_path
       = (case u_get_tree_pair X st dir_path of
            (Inl e, st') \<Rightarrow> Some ([], Some e, st')
          | (Inr (t, dvc), st') \<Rightarrow>
             (case u_walk n X st' dvcfiles (wt_walk t dir_path (\<not> traverse_subrepos st'))
                     (map_option (\<lambda>dt. dt_walk dt dir_path) dvc) of
                None \<Rightarrow> None
              | Some (out, err, st'', _, _) \<Rightarrow> Some (out, err, st'')))
   \<and> u_dvc_walk 0 w = None
   \<and> u_dvc_walk (Suc n) Exhausted = Some ([], Exhausted)
   \<and> u_dvc_walk (Suc n) (Yield root dirs files k)
       = (case dvc_walk_loop n dirs (k dirs) of
            None \<Rightarrow> None
          | Some (out, w') \<Rightarrow> Some ((root, dirs, files) # out, w'))
   \<and> dvc_walk_loop n [] w = Some ([], w)
   \<and> dvc_walk_loop n (d # ds) w
       = (case u_dvc_walk n w of
            None \<Rightarrow> None
          | Some (out1, w1) \<Rightarrow>
             (case dvc_walk_loop n ds w1 of
                None \<Rightarrow> None
              | Some (out2, w2) \<Rightarrow> Some (out1 @ out2, w2)))"
  by (intro conjI level_actions_order level_actions_no_managed next_dvc_dirs_eq next_repo_dirs_eq
        dvc_walk_drain_imp u_walk_ends u_walk_level u_walk_level_repo walk_loop_other
        walk_loop_cons walk_loop_shared walk_loop_dvc_only walk_loop_repo_only
        walk_loop_subrepo u_subrepo_walk_fresh u_dvc_walk_eqs)

theorem walk_recursion_order_witness:
  "level_actions ex_externals ex_st [''r''] [''gen'', ''data'', ''models'']
       [''sub'', ''gen'', ''out'', ''src'']
     = [WalkShared, WalkDvcOnly, WalkDvcOnly, WalkSubrepo [''r'', ''sub''], WalkRepoOnly,
        WalkRepoOnly]
   \<and> level_actions ex_externals ex_git_st [''r''] [] [''s''] = [WalkRepoOnly]
   \<and> next_dvc_dirs [''gen'', ''data'', ''models''] [''sub'', ''gen'', ''out'', ''src'']
     = [''gen'', ''data'', ''models'']
   \<and> next_repo_dirs
        (walk_subrepos ex_externals ex_st [''r'']
           (walk_repo_only [''gen'', ''data'', ''models''] [''sub'', ''gen'', ''out'', ''src'']))
        [''gen'', ''data'', ''models''] [''sub'', ''gen'', ''out'', ''src'']
     = [''gen'', ''out'', ''src'']
   \<and> u_dvc_walk (Suc (Suc (Suc 0))) ex_chain_walk
     = Some ([([''r''], [''s''], [''top.txt'']), ([''r'', ''s''], [''t''], [''mid.txt'']),
              ([''r'', ''s'', ''t''], [], [''leaf.txt''])], Exhausted)
   \<and> drain ex_chain_walk
     = [([''r''], [''s''], [''top.txt'']), ([''r'', ''s''], [''t''], [''mid.txt'']),
        ([''r'', ''s'', ''t''], [], [''leaf.txt''])]
   \<and> u_walk (Suc (Suc (Suc 0))) ex_externals ex_git_st False ex_chain_walk None
     = Some ([([''r''], [''s''], [''top.txt'']), ([''r'', ''s''], [''t''], [''mid.txt'']),
              ([''r'', ''s'', ''t''], [], [''leaf.txt''])], None, ex_git_st, Exhausted, None)
   \<and> map_option (\<lambda>(out, err, calls, _). (out, err, calls))
       (walk (Suc (Suc 0)) ex_externals ex_st [''r''] True False False None)
     = Some ([([''r''], [''gen'', ''data'', ''models'', ''sub'', ''out'', ''src''],
               [''out'', ''a.txt'']),
              ([''r'', ''gen''], [], [''gone.bin'', ''keep.bin'']),
              ([''r'', ''data''], [], [''x.bin'', ''dvc.yaml'']),
              ([''r'', ''models''], [], [''a.pkl'', ''b.pkl'']),
              ([''r'', ''sub''], [], [''model.pkl'', ''inner.txt'']),
              ([''r'', ''out''], [], [''log.txt'']),
              ([''r'', ''src''], [], [''main.py''])], None, [])"
proof -
  let ?dd = "[''gen'', ''data'', ''models'']" and ?rd = "[''sub'', ''gen'', ''out'', ''src'']"
  note o = walk_recursion_order[of ex_externals ex_st "[''r'']" ?dd ?rd]
  have s: "walk_shared ?dd ?rd = [''gen'']" "walk_dvc_only ?dd ?rd = [''data'', ''models'']"
    "walk_repo_only ?dd ?rd = [''sub'', ''out'', ''src'']"
    by (simp_all add: walk_shared_def walk_dvc_only_def walk_repo_only_def)
  have r: "u_is_dvc_repo ex_externals ex_st [''r'', ''sub'']"
    "\<not> u_is_dvc_repo ex_externals ex_st [''r'', ''out'']"
    "\<not> u_is_dvc_repo ex_externals ex_st [''r'', ''src'']"
    "\<not> u_is_dvc_repo ex_externals ex_git_st [''r'', ''s'']"
    by (simp_all add: ex_eval)
  have "level_actions ex_externals ex_st [''r''] ?dd ?rd
     = map (\<lambda>_. WalkShared) (walk_shared ?dd ?rd)
     @ map (\<lambda>_. WalkDvcOnly) (walk_dvc_only ?dd ?rd)
     @ map (\<lambda>d. if u_is_dvc_repo ex_externals ex_st ([''r''] @ [d])
                then WalkSubrepo ([''r''] @ [d]) else WalkRepoOnly) (walk_repo_only ?dd ?rd)"
    by (rule o[THEN conjunct1])
  also have "\<dots> = [WalkShared, WalkDvcOnly, WalkDvcOnly, WalkSubrepo [''r'', ''sub''],
        WalkRepoOnly, WalkRepoOnly]"
    using r by (simp add: s)
  finally have a: "level_actions ex_externals ex_st [''r''] ?dd ?rd
     = [WalkShared, WalkDvcOnly, WalkDvcOnly, WalkSubrepo [''r'', ''sub''], WalkRepoOnly,
        WalkRepoOnly]" .
  have "level_actions ex_externals ex_git_st [''r''] [] [''s'']
     = map (\<lambda>d. if u_is_dvc_repo ex_externals ex_git_st ([''r''] @ [d])
                then WalkSubrepo ([''r''] @ [d]) else WalkRepoOnly) (remdups [''s''])"
    by (rule walk_recursion_order[THEN conjunct2, THEN conjunct1])
  then have a2: "level_actions ex_externals ex_git_st [''r''] [] [''s''] = [WalkRepoOnly]"
    using r by simp
  have "next_dvc_dirs ?dd ?rd = walk_shared ?dd ?rd @ walk_dvc_only ?dd ?rd"
    by (rule o[THEN conjunct2, THEN conjunct2, THEN conjunct1])
  then have b: "next_dvc_dirs ?dd ?rd = ?dd"
    by (simp add: s)
  have "next_repo_dirs (walk_subrepos ex_externals ex_st [''r''] (walk_repo_only ?dd ?rd)) ?dd ?rd
     = walk_shared ?dd ?rd
       @ [d \<leftarrow> walk_repo_only ?dd ?rd. \<not> u_is_dvc_repo ex_externals ex_st ([''r''] @ [d])]"
    by (rule o[THEN conjunct2, THEN conjunct2, THEN conjunct2, THEN conjunct1])
  also have "\<dots> = [''gen'', ''out'', ''src'']"
    using r by (simp add: s)
  finally have c: "next_repo_dirs
       (walk_subrepos ex_externals ex_st [''r''] (walk_repo_only ?dd ?rd)) ?dd ?rd
     = [''gen'', ''out'', ''src'']" .
  note g = walk_recursion_order[THEN conjunct2, THEN conjunct2, THEN conjunct2, THEN conjunct2,
      THEN conjunct1, rule_format, OF ex_chain_runs(2)]
  have d: "drain ex_chain_walk
     = [([''r''], [''s''], [''top.txt'']), ([''r'', ''s''], [''t''], [''mid.txt'']),
        ([''r'', ''s'', ''t''], [], [''leaf.txt''])]"
    using g by simp
  show ?thesis
    by (intro conjI a a2 b c d ex_chain_runs ex_walk_root)
qed

text \<open>
  \<^bold>\<open>C2.\<close> \<open>exists(path)\<close> is true when the working tree of the resolved repo reports the
  path. Otherwise, when that repo has a managed tree: it is false when the managed
  metadata lookup reports not-found, and when the lookup names a single covering output
  it is true exactly when that output's own path does not exist in the working tree.
\<close>

theorem exists_working_then_managed:
  assumes "u_get_tree_pair X st p = (Inr (t, dvc), st')"
  shows "(wt_exists t p \<longrightarrow> exists X st p = (Inr True, st'))
       \<and> (\<not> wt_exists t p \<longrightarrow>
            (\<forall>dt. dvc = Some dt \<longrightarrow>
               (dt_metadata dt p = Inl FileNotFoundError \<longrightarrow> exists X st p = (Inr False, st'))
             \<and> (\<forall>m out. dt_metadata dt p = Inr m \<longrightarrow> md_outs m = [out] \<longrightarrow>
                    exists X st p = (Inr (\<not> wt_exists t (out_path_info out)), st'))))"
  using assms by (cases dvc) (simp_all add: exists_def)

theorem exists_working_then_managed_witness:
  "fst (exists ex_externals ex_st [''r'', ''a.txt'']) = Inr True
   \<and> fst (exists ex_externals ex_st [''r'', ''zzz'']) = Inr False
   \<and> fst (exists ex_externals ex_st [''r'', ''data'', ''x.bin'']) = Inr True
   \<and> fst (exists ex_externals ex_st [''r'', ''gen'', ''gone.bin'']) = Inr False"
proof -
  let ?X = ex_externals
  have p1: "fst (u_get_tree_pair ?X ex_st [''r'', ''a.txt'']) = Inr (ex_tree, Some ex_dvc_tree)"
    and p2: "fst (u_get_tree_pair ?X ex_st [''r'', ''zzz'']) = Inr (ex_tree, Some ex_dvc_tree)"
    and p3: "fst (u_get_tree_pair ?X ex_st [''r'', ''data'', ''x.bin'']) = Inr (ex_tree, Some ex_dvc_tree)"
    and p4: "fst (u_get_tree_pair ?X ex_st [''r'', ''gen'', ''gone.bin'']) = Inr (ex_tree, Some ex_dvc_tree)"
    by (simp_all add: ex_eval)
  have m2: "dt_metadata ex_dvc_tree [''r'', ''zzz''] = Inl FileNotFoundError"
    and m3: "dt_metadata ex_dvc_tree [''r'', ''data'', ''x.bin'']
               = Inr (ex_meta [''r'', ''data'', ''x.bin''] False [[''r'', ''data'']])"
    and m4: "dt_metadata ex_dvc_tree [''r'', ''gen'', ''gone.bin'']
               = Inr (ex_meta [''r'', ''gen'', ''gone.bin''] False [[''r'', ''gen'']])"
    by (simp_all add: ex_dvc_tree_def)
  have o: "md_outs (ex_meta q d [root]) = [\<lparr>out_path_info = root\<rparr>]" for q d root
    by (simp add: ex_meta_def)
  have w1: "wt_exists ex_tree [''r'', ''a.txt'']"
    and w2: "\<not> wt_exists ex_tree [''r'', ''zzz'']"
    and w3: "\<not> wt_exists ex_tree [''r'', ''data'', ''x.bin'']" "\<not> wt_exists ex_tree [''r'', ''data'']"
    and w4: "\<not> wt_exists ex_tree [''r'', ''gen'', ''gone.bin'']" "wt_exists ex_tree [''r'', ''gen'']"
    by (simp_all add: ex_tree_fields ex_dirs_def ex_files_def)
  from exists_working_then_managed[OF pair_collapse[OF p1]] w1
  have "fst (exists ?X ex_st [''r'', ''a.txt'']) = Inr True" by simp
  moreover from exists_working_then_managed[OF pair_collapse[OF p2]] w2 m2
  have "fst (exists ?X ex_st [''r'', ''zzz'']) = Inr False" by simp
  moreover from exists_working_then_managed[OF pair_collapse[OF p3]] w3 m3 o
  have "fst (exists ?X ex_st [''r'', ''data'', ''x.bin'']) = Inr True" by simp
  moreover from exists_working_then_managed[OF pair_collapse[OF p4]] w4 m4 o
  have "fst (exists ?X ex_st [''r'', ''gen'', ''gone.bin'']) = Inr False" by simp
  ultimately show ?thesis by simp
qed

text \<open>
  \<^bold>\<open>C3.\<close> The claim says that at every level of the merged walk the pipeline files and
  the ignore-file are removed by name unless \<open>dvcfiles\<close> is set. Evaluated on the example
  project, without the flag: the level of the managed-only directory \<^verbatim>\<open>/r/data\<close> lists the
  pipeline file \<^verbatim>\<open>dvc.yaml\<close>, because \<open>_dvc_walk\<close> hands the items of the managed walk on
  as they are. The sibling path \<open>_walk\<close> removes the same name from the same managed item
  when the directory is in the working tree too.
\<close>

theorem walk_managed_only_level_unfiltered:
  "map_option (\<lambda>(out, err, calls, _). (out, err, calls))
     (walk (Suc (Suc 0)) ex_externals ex_st [''r''] True False False None)
   = Some ([([''r''], [''gen'', ''data'', ''models'', ''sub'', ''out'', ''src''], [''out'', ''a.txt'']),
            ([''r'', ''gen''], [], [''gone.bin'', ''keep.bin'']),
            ([''r'', ''data''], [], [''x.bin'', ''dvc.yaml'']),
            ([''r'', ''models''], [], [''a.pkl'', ''b.pkl'']),
            ([''r'', ''sub''], [], [''model.pkl'', ''inner.txt'']),
            ([''r'', ''out''], [], [''log.txt'']),
            ([''r'', ''src''], [], [''main.py''])], None, [])
   \<and> is_valid_filename ex_externals ''dvc.yaml''
   \<and> u_dvc_walk (Suc 0) (Yield [''r'', ''data''] [] [''x.bin'', ''dvc.yaml''] (\<lambda>_. Exhausted))
     = Some ([([''r'', ''data''], [], [''x.bin'', ''dvc.yaml''])], Exhausted)
   \<and> u_walk (Suc 0) ex_externals ex_st False
        (Yield [''r'', ''data''] [] [''x.bin'', ''dvc.yaml''] (\<lambda>_. Exhausted))
        (Some (Yield [''r'', ''data''] [] [''x.bin'', ''dvc.yaml''] (\<lambda>_. Exhausted)))
     = Some ([([''r'', ''data''], [], [''x.bin''])], None, ex_st, Exhausted, Some Exhausted)"
proof -
  have v: "is_valid_filename ex_externals ''dvc.yaml''"
    by (simp add: ex_externals_fields)
  have d: "u_dvc_walk (Suc 0) (Yield [''r'', ''data''] [] [''x.bin'', ''dvc.yaml''] (\<lambda>_. Exhausted))
     = Some ([([''r'', ''data''], [], [''x.bin'', ''dvc.yaml''])], Exhausted)"
    by simp
  have w: "u_walk (Suc 0) ex_externals ex_st False
        (Yield [''r'', ''data''] [] [''x.bin'', ''dvc.yaml''] (\<lambda>_. Exhausted))
        (Some (Yield [''r'', ''data''] [] [''x.bin'', ''dvc.yaml''] (\<lambda>_. Exhausted)))
     = Some ([([''r'', ''data''], [], [''x.bin''])], None, ex_st, Exhausted, Some Exhausted)"
    by (simp add: Let_def level_actions_def walk_dirs_def walk_shared_def walk_dvc_only_def
          walk_repo_only_def merged_files_def u_func_def ex_externals_fields)
  show ?thesis by (intro conjI ex_walk_root v d w)
qed

text \<open>
  \<^bold>\<open>C4.\<close> For a start path that does not exist, \<open>walk\<close> passes
  \<^verbatim>\<open>FileNotFoundError\<close> to the callback when there is one; for a start path that exists and
  is not a directory, \<^verbatim>\<open>NotADirectoryError\<close>. In both cases, with or without a callback,
  it yields nothing and raises nothing.
\<close>

theorem walk_invalid_root:
  "(exists X st top_dir = (Inr False, st1) \<longrightarrow>
      walk fuel X st top_dir True onerror dvcfiles follow_subrepos
        = Some ([], None, (if onerror then [FileNotFoundError] else []), st1))
   \<and> (exists X st top_dir = (Inr True, st1) \<longrightarrow> isdir X st1 top_dir = (Inr False, st2) \<longrightarrow>
      walk fuel X st top_dir True onerror dvcfiles follow_subrepos
        = Some ([], None, (if onerror then [NotADirectoryError] else []), st2))"
  by (simp add: walk_def)

theorem walk_invalid_root_witness:
  "map_option (\<lambda>(out, err, calls, _). (out, err, calls))
       (walk 0 ex_externals ex_st [''r'', ''zzz''] True True False None)
     = Some ([], None, [FileNotFoundError])
   \<and> map_option (\<lambda>(out, err, calls, _). (out, err, calls))
       (walk 0 ex_externals ex_st [''r'', ''zzz''] True False False None)
     = Some ([], None, [])
   \<and> map_option (\<lambda>(out, err, calls, _). (out, err, calls))
       (walk 0 ex_externals ex_st [''r'', ''a.txt''] True True False None)
     = Some ([], None, [NotADirectoryError])
   \<and> map_option (\<lambda>(out, err, calls, _). (out, err, calls))
       (walk 0 ex_externals ex_st [''r'', ''a.txt''] True False False None)
     = Some ([], None, [])"
proof -
  let ?X = ex_externals
  let ?z = "[''r'', ''zzz'']" and ?a = "[''r'', ''a.txt'']"
  have e1: "fst (exists ?X ex_st ?z) = Inr False"
    by (simp add: exists_def ex_eval ex_dvc_tree_def)
  have e2: "fst (exists ?X ex_st ?a) = Inr True"
    by (simp add: exists_def ex_eval)
  have d2: "fst (isdir ?X (snd (exists ?X ex_st ?a)) ?a) = Inr False"
    by (simp add: exists_def isdir_def S_ISDIR_def ex_eval)
  note w1 = walk_invalid_root[of ?X ex_st ?z "snd (exists ?X ex_st ?z)", THEN conjunct1, rule_format,
      OF pair_collapse[OF e1]]
  note w2 = walk_invalid_root[of ?X ex_st ?a "snd (exists ?X ex_st ?a)", THEN conjunct2, rule_format,
      OF pair_collapse[OF e2] pair_collapse[OF d2]]
  show ?thesis
    by (simp add: w1 w2)
qed

text \<open>
  \<^bold>\<open>C5.\<close> When the start path passes the validation, the resolved repo has a managed
  tree and the working tree has nothing at the start path (it reports the path absent and
  its walk of the path is empty), \<open>walk\<close> yields the items of the managed tree's walk of
  the path and nothing else, for every positive amount of fuel.
\<close>

theorem walk_managed_only_root:
  assumes "exists X st top_dir = (Inr True, st1)"
    and "isdir X st1 top_dir = (Inr True, st2)"
    and "u_get_tree_pair X st2 top_dir = (Inr (t, Some dt), st3)"
    and "\<not> wt_exists t top_dir"
    and "\<forall>ignore_subrepos. wt_walk t top_dir ignore_subrepos = Exhausted"
  shows "walk (Suc n) X st top_dir True onerror dvcfiles follow_subrepos
           = Some (drain (dt_walk dt top_dir), None, [], st3)"
proof -
  obtain dw' where
    "u_walk (Suc n) X st3 dvcfiles Exhausted
       (if dt_exists dt top_dir then Some (dt_walk dt top_dir) else None)
     = Some ([], None, st3, Exhausted, dw')"
    using u_walk_repo_exhausted by blast
  with assms show ?thesis
    by (simp add: walk_def Let_def)
qed

theorem walk_managed_only_root_witness:
  "map_option (\<lambda>(out, err, calls, _). (out, err, calls))
     (walk (Suc 0) ex_externals ex_st [''r'', ''data''] True False False None)
   = Some ([([''r'', ''data''], [], [''x.bin'', ''dvc.yaml''])], None, [])
   \<and> drain (dt_walk ex_dvc_tree [''r'', ''data''])
       = [([''r'', ''data''], [], [''x.bin'', ''dvc.yaml''])]
   \<and> \<not> wt_exists ex_tree [''r'', ''data'']"
proof -
  let ?X = ex_externals and ?p = "[''r'', ''data'']"
  let ?st1 = "snd (exists ?X ex_st ?p)"
  let ?st2 = "snd (isdir ?X ?st1 ?p)"
  let ?st3 = "snd (u_get_tree_pair ?X ?st2 ?p)"
  have w: "\<not> wt_exists ex_tree ?p" and s: "wt_stat ex_tree ?p = Inl FileNotFoundError"
    by (simp_all add: ex_tree_fields ex_dirs_def ex_files_def)
  have wk: "\<forall>ign. wt_walk ex_tree ?p ign = Exhausted"
    by (simp add: ex_tree_def)
  have e: "fst (exists ?X ex_st ?p) = Inr True"
    by code_simp
  have d: "fst (isdir ?X ?st1 ?p) = Inr True"
    by code_simp
  have g: "fst (u_get_tree_pair ?X ?st2 ?p) = Inr (ex_tree, Some ex_dvc_tree)"
    by (simp add: exists_def isdir_def ex_eval ex_dvc_tree_def ex_meta_def)
  have dr: "drain (dt_walk ex_dvc_tree ?p) = [(?p, [], [''x.bin'', ''dvc.yaml''])]"
    by (simp add: ex_dvc_tree_def flat_walk_def)
  from walk_managed_only_root[OF pair_collapse[OF e] pair_collapse[OF d] pair_collapse[OF g] w wk,
      of 0 False False None]
  show ?thesis using dr w by simp
qed

text \<open>
  \<^bold>\<open>C6.\<close> Where the managed metadata of a path exists, \<open>metadata(path)\<close> returns that
  record with \<open>isdir\<close> set to the managed flag or the directory bit of the working tree's
  \<^verbatim>\<open>stat\<close> when the \<^verbatim>\<open>stat\<close> succeeds, and unchanged when the \<^verbatim>\<open>stat\<close> reports
  not-found; whatever record it returns, a managed \<open>isdir = True\<close> stays \<open>True\<close>.
\<close>

theorem metadata_isdir_or:
  assumes "u_get_tree_pair X st p = (Inr (t, Some dt), st')"
    and "dt_metadata dt p = Inr m"
  shows "(\<forall>mode. wt_stat t p = Inr mode \<longrightarrow>
            metadata X st p = (Inr (m\<lparr>md_isdir := md_isdir m \<or> S_ISDIR mode\<rparr>), st'))
       \<and> (wt_stat t p = Inl FileNotFoundError \<longrightarrow> metadata X st p = (Inr m, st'))
       \<and> (\<forall>r st''. metadata X st p = (Inr r, st'') \<longrightarrow> md_isdir m \<longrightarrow> md_isdir r)"
proof (cases "wt_stat t p")
  case (Inr mode)
  with assms show ?thesis by (auto simp: metadata_def)
next
  case (Inl e)
  with assms show ?thesis by (auto simp: metadata_def)
qed

theorem metadata_isdir_or_witness:
  "map_sum id md_isdir (fst (metadata ex_externals ex_st [''r'', ''out''])) = Inr True
   \<and> dt_metadata ex_dvc_tree [''r'', ''out''] = Inr (ex_meta [''r'', ''out''] False [[''r'', ''out'']])
   \<and> \<not> md_isdir (ex_meta [''r'', ''out''] False [[''r'', ''out'']])
   \<and> fst (metadata ex_externals ex_st [''r'', ''data''])
        = Inr (ex_meta [''r'', ''data''] True [[''r'', ''data'']])
   \<and> md_isdir (ex_meta [''r'', ''data''] True [[''r'', ''data'']])"
proof -
  let ?X = ex_externals
  let ?o = "[''r'', ''out'']" and ?d = "[''r'', ''data'']"
  have p1: "fst (u_get_tree_pair ?X ex_st ?o) = Inr (ex_tree, Some ex_dvc_tree)"
    and p2: "fst (u_get_tree_pair ?X ex_st ?d) = Inr (ex_tree, Some ex_dvc_tree)"
    by (simp_all add: ex_eval)
  have m1: "dt_metadata ex_dvc_tree ?o = Inr (ex_meta ?o False [?o])"
    and m2: "dt_metadata ex_dvc_tree ?d = Inr (ex_meta ?d True [?d])"
    by (simp_all add: ex_dvc_tree_def)
  have s1: "wt_stat ex_tree ?o = Inr 16877" and s2: "wt_stat ex_tree ?d = Inl FileNotFoundError"
    by (simp_all add: ex_tree_fields ex_dirs_def ex_files_def)
  have d: "S_ISDIR 16877" by (simp add: S_ISDIR_def)
  have n: "\<not> md_isdir (ex_meta ?o False [?o])" by (simp add: ex_meta_def)
  have y: "md_isdir (ex_meta ?d True [?d])" by (simp add: ex_meta_def)
  note r1 = metadata_isdir_or[OF pair_collapse[OF p1] m1, THEN conjunct1, rule_format, OF s1]
  note r2 = metadata_isdir_or[OF pair_collapse[OF p2] m2, THEN conjunct2, THEN conjunct1,
      rule_format, OF s2]
  note r3 = metadata_isdir_or[OF pair_collapse[OF p2] m2, THEN conjunct2, THEN conjunct2,
      rule_format, OF r2 y]
  from d have a: "map_sum id md_isdir (fst (metadata ?X ex_st ?o)) = Inr True"
    by (simp add: r1)
  have b: "fst (metadata ?X ex_st ?d) = Inr (ex_meta ?d True [?d])"
    by (simp add: r2)
  show ?thesis by (intro conjI a m1 n b r3)
qed

text \<open>
  \<^bold>\<open>C7.\<close> The claim says that \<open>info(path)\<close> lets the managed tree's not-found error
  through when the path is in neither tree. Evaluated on a repository without a managed
  tree (no \<^verbatim>\<open>dvc_dir\<close>), for a path that the working tree does not have: the handler
  reaches \<^verbatim>\<open>dvc_tree.info\<close> with \<^verbatim>\<open>dvc_tree = None\<close>, and the call ends with
  \<^verbatim>\<open>AttributeError\<close>, not with a not-found error.
\<close>

theorem info_without_managed_tree:
  "fst (u_get_tree_pair ex_externals ex_git_st [''r'', ''zzz'']) = Inr (ex_tree, None)
   \<and> wt_info ex_tree [''r'', ''zzz''] = Inl FileNotFoundError
   \<and> fst (info ex_externals ex_git_st [''r'', ''zzz'']) = Inl AttributeError"
  by (simp add: info_def ex_eval)

text \<open>
  \<^bold>\<open>C8.\<close> Resolution is idempotent: when \<open>_get_repo(path)\<close> has returned, a second call
  returns the same handle and leaves the instance as it is, so the repo factory is not
  called again. Every entry of the trie keeps its value through a call of \<open>_get_repo\<close>,
  however the call ends.
\<close>

theorem resolve_idempotent:
  "(u_get_repo X st p = (Inr r, st') \<longrightarrow>
      u_get_repo X st' p = (Inr r, st')
      \<and> factory_calls (snd (u_get_repo X st' p)) = factory_calls st')
   \<and> (\<forall>k v. subrepos_trie st k = Some v \<longrightarrow>
         subrepos_trie (snd (u_get_repo X st p)) k = Some v)"
proof (intro conjI impI allI)
  assume a: "u_get_repo X st p = (Inr r, st')"
  show "u_get_repo X st' p = (Inr r, st')" by (rule u_get_repo_again[OF a])
  then show "factory_calls (snd (u_get_repo X st' p)) = factory_calls st'" by simp
next
  fix k v assume "subrepos_trie st k = Some v"
  then show "subrepos_trie (snd (u_get_repo X st p)) k = Some v"
    by (rule u_get_repo_trie_mono)
qed

theorem resolve_idempotent_witness:
  "fst (u_get_repo ex_externals ex_st [''r'', ''sub'', ''inner.txt'']) = Inr (Some ex_subrepo)
   \<and> factory_calls (snd (u_get_repo ex_externals ex_st [''r'', ''sub'', ''inner.txt''])) = [[''r'', ''sub'']]
   \<and> u_get_repo ex_externals (snd (u_get_repo ex_externals ex_st [''r'', ''sub'', ''inner.txt'']))
        [''r'', ''sub'', ''inner.txt'']
      = (Inr (Some ex_subrepo), snd (u_get_repo ex_externals ex_st [''r'', ''sub'', ''inner.txt'']))
   \<and> factory_calls (snd (u_get_repo ex_externals
         (snd (u_get_repo ex_externals ex_st [''r'', ''sub'', ''inner.txt'']))
         [''r'', ''sub'', ''inner.txt''])) = [[''r'', ''sub'']]
   \<and> subrepos_trie ex_st [''r''] = Some ex_repo
   \<and> subrepos_trie (snd (u_get_repo ex_externals ex_st [''r'', ''sub'', ''inner.txt''])) [''r'']
        = Some ex_repo"
proof -
  let ?p = "[''r'', ''sub'', ''inner.txt'']"
  let ?st1 = "snd (u_get_repo ex_externals ex_st ?p)"
  have f: "fst (u_get_repo ex_externals ex_st ?p) = Inr (Some ex_subrepo)"
    by (simp add: ex_eval)
  have c: "factory_calls ?st1 = [[''r'', ''sub'']]"
    by (simp add: ex_eval)
  have t: "subrepos_trie ex_st [''r''] = Some ex_repo"
    by (simp add: ex_st_fields)
  from resolve_idempotent[of ex_externals ex_st ?p "Some ex_subrepo" ?st1] pair_collapse[OF f] t c
  show ?thesis using f by simp
qed

text \<open>
  \<^bold>\<open>C9\<close> (as stated, refuted). In the example project the managed metadata of the root
  \<^verbatim>\<open>/r\<close> names five covering outputs, and \<open>exists\<close>, \<open>isdir\<close> and \<open>isfile\<close> all return a
  result for \<^verbatim>\<open>/r\<close>: the working tree answers before the metadata is looked at.
\<close>

theorem cardinality_violation_counterexample:
  "fst (u_get_tree_pair ex_externals ex_st [''r'']) = Inr (ex_tree, Some ex_dvc_tree)
   \<and> map_sum id (length \<circ> md_outs) (dt_metadata ex_dvc_tree [''r'']) = Inr 5
   \<and> fst (exists ex_externals ex_st [''r'']) = Inr True
   \<and> fst (isdir ex_externals ex_st [''r'']) = Inr True
   \<and> fst (isfile ex_externals ex_st [''r'']) = Inr False"
  by (simp add: exists_def isdir_def isfile_def S_ISDIR_def S_ISREG_def ex_eval
        ex_dvc_tree_def ex_meta_def)

text \<open>
  \<^bold>\<open>C9\<close> (amended). Let the managed metadata of a path name a number of covering outputs
  other than one. When the working tree does not answer for the path (\<open>exists\<close>: it reports
  the path absent; \<open>isdir\<close>, \<open>isfile\<close>: its \<^verbatim>\<open>stat\<close> fails with an \<^verbatim>\<open>OSError\<close> or a
  \<^verbatim>\<open>ValueError\<close>), the three operations raise (the \<^verbatim>\<open>ValueError\<close> of the unpacking
  \<^verbatim>\<open>(out,) = meta.outs\<close>) and return nothing. When the working tree answers, they return
  its answer.
\<close>

theorem cardinality_violation_raises:
  assumes "u_get_tree_pair X st p = (Inr (t, Some dt), st')"
    and "dt_metadata dt p = Inr m"
    and "length (md_outs m) \<noteq> 1"
  shows "(\<not> wt_exists t p \<longrightarrow> exists X st p = (Inl ValueError, st'))
       \<and> (wt_exists t p \<longrightarrow> exists X st p = (Inr True, st'))
       \<and> (\<forall>e. wt_stat t p = Inl e \<longrightarrow> is_OSError e \<or> e = ValueError \<longrightarrow>
              isdir X st p = (Inl ValueError, st') \<and> isfile X st p = (Inl ValueError, st'))
       \<and> (\<forall>mode. wt_stat t p = Inr mode \<longrightarrow>
              isdir X st p = (Inr (S_ISDIR mode), st') \<and> isfile X st p = (Inr (S_ISREG mode), st'))"
proof -
  from assms(3) have c: "(case md_outs m of [out] \<Rightarrow> f out | _ \<Rightarrow> g) = g" for f :: "dvc_output \<Rightarrow> 'b" and g
    by (cases "md_outs m"; simp split: list.splits)
  show ?thesis
    using assms(1,2) by (auto simp: exists_def isdir_def isfile_def c)
qed

theorem cardinality_violation_raises_witness:
  "map_sum id (length \<circ> md_outs) (dt_metadata ex_dvc_tree [''r'', ''models'']) = Inr 2
   \<and> fst (exists ex_externals ex_st [''r'', ''models'']) = Inl ValueError
   \<and> fst (isdir ex_externals ex_st [''r'', ''models'']) = Inl ValueError
   \<and> fst (isfile ex_externals ex_st [''r'', ''models'']) = Inl ValueError
   \<and> map_sum id (length \<circ> md_outs) (dt_metadata ex_dvc_tree [''r'']) = Inr 5
   \<and> fst (exists ex_externals ex_st [''r'']) = Inr True
   \<and> fst (isdir ex_externals ex_st [''r'']) = Inr True
   \<and> fst (isfile ex_externals ex_st [''r'']) = Inr False"
proof -
  let ?X = ex_externals
  let ?p = "[''r'', ''models'']" and ?q = "[''r'']"
  let ?m = "ex_meta ?p True [[''r'', ''models'', ''a.pkl''], [''r'', ''models'', ''b.pkl'']]"
  let ?k = "ex_meta ?q True [[''r'', ''gen''], [''r'', ''data''], [''r'', ''out''],
                                 [''r'', ''models'', ''a.pkl''], [''r'', ''models'', ''b.pkl'']]"
  have p: "fst (u_get_tree_pair ?X ex_st ?p) = Inr (ex_tree, Some ex_dvc_tree)"
    and q: "fst (u_get_tree_pair ?X ex_st ?q) = Inr (ex_tree, Some ex_dvc_tree)"
    by (simp_all add: ex_eval)
  have m: "dt_metadata ex_dvc_tree ?p = Inr ?m" and k: "dt_metadata ex_dvc_tree ?q = Inr ?k"
    by (simp_all add: ex_dvc_tree_def)
  have l: "length (md_outs ?m) \<noteq> 1" and lk: "length (md_outs ?k) \<noteq> 1"
    by (simp_all add: ex_meta_def)
  have w: "\<not> wt_exists ex_tree ?p" and s: "wt_stat ex_tree ?p = Inl FileNotFoundError"
    and wq: "wt_exists ex_tree ?q" and sq: "wt_stat ex_tree ?q = Inr 16877"
    by (simp_all add: ex_tree_fields ex_dirs_def ex_files_def)
  note c = cardinality_violation_raises[OF pair_collapse[OF p] m l]
  note cq = cardinality_violation_raises[OF pair_collapse[OF q] k lk]
  have o: "is_OSError FileNotFoundError \<or> FileNotFoundError = ValueError" by simp
  note c1 = c[THEN conjunct1, rule_format, OF w]
  note c3 = c[THEN conjunct2, THEN conjunct2, THEN conjunct1, rule_format, OF s o]
  note q2 = cq[THEN conjunct2, THEN conjunct1, rule_format, OF wq]
  note q4 = cq[THEN conjunct2, THEN conjunct2, THEN conjunct2, rule_format, OF sq]
  have "fst (exists ?X ex_st ?p) = Inl ValueError"
    "fst (isdir ?X ex_st ?p) = Inl ValueError" "fst (isfile ?X ex_st ?p) = Inl ValueError"
    "fst (exists ?X ex_st ?q) = Inr True"
    "fst (isdir ?X ex_st ?q) = Inr True" "fst (isfile ?X ex_st ?q) = Inr False"
    by (simp_all add: c1 c3 q2 q4 S_ISDIR_def S_ISREG_def)
  then show ?thesis using m k by (simp add: ex_meta_def)
qed

text \<open>
  \<^bold>\<open>C10.\<close> \<open>walk\<close> with \<open>topdown = False\<close> ends with \<^verbatim>\<open>AssertionError\<close> before any
  validation: nothing is yielded, the callback is not called and the instance is
  untouched.
\<close>

theorem walk_topdown_only:
  "walk fuel X st top_dir False onerror dvcfiles follow_subrepos
     = Some ([], Some AssertionError, [], st)"
  by (simp add: walk_def)

end
